theory Spec2Isabelle
  imports Complex_Main "HOL-Library.Sublist"
begin

section \<open>Numbers\<close>

text \<open>
  JavaScript numbers are modelled as real numbers: every coordinate, size, time stamp and
  distance below is a \<^typ>\<open>real\<close>, and \<open>Math.sqrt\<close>, \<open>Math.floor\<close>, \<open>Math.ceil\<close>,
  \<open>Math.max\<close> and \<open>Math.min\<close> are \<^const>\<open>sqrt\<close>, \<^const>\<open>floor\<close>, \<^const>\<open>ceiling\<close>,
  \<^const>\<open>max\<close> and \<^const>\<open>min\<close>. Rounding of IEEE doubles, NaN and the infinities are
  outside the model.
\<close>

definition jsTrunc :: "real \<Rightarrow> int" where
  "jsTrunc r = (if 0 \<le> r then \<lfloor>r\<rfloor> else \<lceil>r\<rceil>)"

text \<open>The remainder operator \<open>a % b\<close> on numbers: the result takes the sign of the dividend.\<close>

definition jsRem :: "real \<Rightarrow> real \<Rightarrow> real" where
  "jsRem a b = a - b * of_int (jsTrunc (a / b))"

section \<open>GameObject\<close>

text \<open>
  The class of an object, as the \<open>instanceof\<close> tests of the collision system see it (a
  \<open>SpecialBullet\<close> is a \<open>Bullet\<close>). \<open>GameObject\<close> is a plain instance of the base class;
  \<open>Foreign\<close> is an object that is not a \<open>GameObject\<close> at all (the registry also holds such
  objects, for example the game system manager) and that has no \<open>onCollision\<close> method and
  no truthy \<open>active\<close> field.
\<close>

datatype cls = Player | Enemy | Bullet | WeaponPickup | GameObject | Foreign

datatype weaponType = basic | rapid | spread | laser

record weapon =
  weaponType :: weaponType
  w_damage :: real
  fireRate :: real
  bulletSpeed :: real

record weaponManager =
  currentWeapon :: weapon
  weaponLevel :: real
  maxLevel :: real
  currentWeaponIndex :: int

text \<open>
  One record for the fields of \<open>GameObject\<close> and of its subclasses that the collision
  engine and the collision hooks read or write. \<open>obj_id\<close>, \<open>obj_x\<close> and \<open>obj_y\<close> are the
  fields \<open>id\<close>, \<open>x\<close> and \<open>y\<close>; an empty \<open>obj_id\<close> stands for a missing (falsy) id.
\<close>

record gobj =
  cls :: cls
  obj_id :: string
  obj_x :: real
  obj_y :: real
  vx :: real
  vy :: real
  width :: real
  height :: real
  active :: bool
  shouldDestroy :: bool
  health :: real
  invulnerable :: bool
  invulnerabilityTime :: real
  invulnerabilityDuration :: real
  weaponManager :: "weaponManager option"
  isPlayerBullet :: bool
  damage :: real
  piercing :: bool
  maxPierceCount :: int
  pierceCount :: int
  points :: real

record bounds =
  bLeft :: real
  bRight :: real
  bTop :: real
  bBottom :: real

definition getBounds :: "gobj \<Rightarrow> bounds" where
  "getBounds obj =
     \<lparr> bLeft = obj_x obj - width obj / 2,
       bRight = obj_x obj + width obj / 2,
       bTop = obj_y obj - height obj / 2,
       bBottom = obj_y obj + height obj / 2 \<rparr>"

definition destroy :: "gobj \<Rightarrow> gobj" where
  "destroy obj = obj\<lparr>shouldDestroy := True, active := False\<rparr>"

definition collidesWith :: "gobj \<Rightarrow> gobj \<Rightarrow> bool" where
  "collidesWith this other =
     (if \<not> active this \<or> \<not> active other then False
      else
        let thisLeft = obj_x this - width this / 2;
            thisRight = obj_x this + width this / 2;
            thisTop = obj_y this - height this / 2;
            thisBottom = obj_y this + height this / 2;
            otherLeft = obj_x other - width other / 2;
            otherRight = obj_x other + width other / 2;
            otherTop = obj_y other - height other / 2;
            otherBottom = obj_y other + height other / 2
        in \<not> (thisRight < otherLeft \<or> thisLeft > otherRight \<or>
               thisBottom < otherTop \<or> thisTop > otherBottom))"

definition distanceTo :: "gobj \<Rightarrow> gobj \<Rightarrow> real" where
  "distanceTo this other =
     (let dx = obj_x this - obj_x other;
          dy = obj_y this - obj_y other
      in sqrt (dx * dx + dy * dy))"

section \<open>CollisionSystem: the narrow phase\<close>

definition checkAABBCollision :: "gobj \<Rightarrow> gobj \<Rightarrow> bool" where
  "checkAABBCollision obj1 obj2 =
     (let bounds1 = getBounds obj1;
          bounds2 = getBounds obj2
      in \<not> (bRight bounds1 < bLeft bounds2 \<or>
             bLeft bounds1 > bRight bounds2 \<or>
             bBottom bounds1 < bTop bounds2 \<or>
             bTop bounds1 > bBottom bounds2))"

definition checkCircleCollision :: "gobj \<Rightarrow> gobj \<Rightarrow> bool" where
  "checkCircleCollision obj1 obj2 =
     (let dx = obj_x obj1 - obj_x obj2;
          dy = obj_y obj1 - obj_y obj2;
          distance = sqrt (dx * dx + dy * dy);
          radius1 = max (width obj1) (height obj1) / 2;
          radius2 = max (width obj2) (height obj2) / 2;
          radius1 = (if cls obj1 = WeaponPickup then radius1 + 10 else radius1);
          radius2 = (if cls obj2 = WeaponPickup then radius2 + 10 else radius2);
          collisionDistance = radius1 + radius2
      in distance < collisionDistance)"

definition isWeaponPickupPair :: "gobj \<Rightarrow> gobj \<Rightarrow> bool" where
  "isWeaponPickupPair obj1 obj2 =
     ((cls obj1 = WeaponPickup \<and> cls obj2 = Player) \<or>
      (cls obj1 = Player \<and> cls obj2 = WeaponPickup))"

definition checkCollision :: "gobj \<Rightarrow> gobj \<Rightarrow> bool" where
  "checkCollision obj1 obj2 =
     (if \<not> active obj1 \<or> \<not> active obj2 then False
      else if isWeaponPickupPair obj1 obj2 then checkCircleCollision obj1 obj2
      else checkAABBCollision obj1 obj2)"

subsection \<open>What the specification calls box overlap\<close>

text \<open>
  The axis-aligned box of an object as a set of points, and the four ways in which one
  box can lie entirely to one side of the other. These two definitions follow the words
  of the specification; the predicates above follow the code.
\<close>

definition boxOf :: "gobj \<Rightarrow> (real \<times> real) set" where
  "boxOf obj =
     {(px, py). bLeft (getBounds obj) \<le> px \<and> px \<le> bRight (getBounds obj) \<and>
                bTop (getBounds obj) \<le> py \<and> py \<le> bBottom (getBounds obj)}"

definition entirelyToOneSide :: "gobj \<Rightarrow> gobj \<Rightarrow> bool" where
  "entirelyToOneSide a b =
     (bRight (getBounds a) < bLeft (getBounds b) \<or>
      bRight (getBounds b) < bLeft (getBounds a) \<or>
      bBottom (getBounds a) < bTop (getBounds b) \<or>
      bBottom (getBounds b) < bTop (getBounds a))"

definition edgeContact :: "gobj \<Rightarrow> gobj \<Rightarrow> bool" where
  "edgeContact a b =
     (((bRight (getBounds a) = bLeft (getBounds b) \<or> bRight (getBounds b) = bLeft (getBounds a)) \<and>
       bTop (getBounds a) \<le> bBottom (getBounds b) \<and> bTop (getBounds b) \<le> bBottom (getBounds a)) \<or>
      ((bBottom (getBounds a) = bTop (getBounds b) \<or> bBottom (getBounds b) = bTop (getBounds a)) \<and>
       bLeft (getBounds a) \<le> bRight (getBounds b) \<and> bLeft (getBounds b) \<le> bRight (getBounds a)))"

text \<open>A plain object of the base class, as the \<open>GameObject\<close> constructor builds it.\<close>

definition newGameObject :: "string \<Rightarrow> real \<Rightarrow> real \<Rightarrow> gobj" where
  "newGameObject ident px py =
     \<lparr> cls = GameObject, obj_id = ident, obj_x = px, obj_y = py, vx = 0, vy = 0,
       width = 20, height = 20, active = True, shouldDestroy = False,
       health = 0, invulnerable = False, invulnerabilityTime = 0,
       invulnerabilityDuration = 0, weaponManager = None, isPlayerBullet = False,
       damage = 0, piercing = False, maxPierceCount = 0, pierceCount = 0, points = 0 \<rparr>"

section \<open>SpatialGrid\<close>

text \<open>
  Objects are held by reference: a reference is an address in the object store, and two
  references are the same object exactly when they are equal (the test \<open>gridObj !== obj\<close>
  and \<open>Array.includes\<close> compare references).
\<close>

type_synonym ref = nat

type_synonym store = "ref \<Rightarrow> gobj"

record spatialGrid =
  g_width :: real
  g_height :: real
  cellSize :: real
  cols :: int
  rows :: int
  grid :: "ref list list"

text \<open>\<open>clear\<close>: one empty bucket for every index below \<open>rows * cols\<close>.\<close>

definition clear :: "spatialGrid \<Rightarrow> spatialGrid" where
  "clear g = g\<lparr>grid := replicate (nat (rows g * cols g)) []\<rparr>"

definition newSpatialGrid :: "real \<Rightarrow> real \<Rightarrow> real \<Rightarrow> spatialGrid" where
  "newSpatialGrid w h cs =
     clear \<lparr> g_width = w, g_height = h, cellSize = cs,
             cols = \<lceil>w / cs\<rceil>, rows = \<lceil>h / cs\<rceil>, grid = [] \<rparr>"

text \<open>\<open>this.grid[index].push(obj)\<close>\<close>

definition cellPush :: "ref \<Rightarrow> int \<Rightarrow> spatialGrid \<Rightarrow> spatialGrid" where
  "cellPush r index g = g\<lparr>grid := (grid g)[nat index := grid g ! nat index @ [r]]\<rparr>"

text \<open>
  \<open>insert\<close>: the two nested loops run over the inclusive, clamped cell range of the
  object's bounds, rows outside and columns inside.
\<close>

definition gridInsert :: "store \<Rightarrow> ref \<Rightarrow> spatialGrid \<Rightarrow> spatialGrid" where
  "gridInsert h r g =
     (let bounds = getBounds (h r);
          startCol = max 0 \<lfloor>bLeft bounds / cellSize g\<rfloor>;
          endCol = min (cols g - 1) \<lfloor>bRight bounds / cellSize g\<rfloor>;
          startRow = max 0 \<lfloor>bTop bounds / cellSize g\<rfloor>;
          endRow = min (rows g - 1) \<lfloor>bBottom bounds / cellSize g\<rfloor>
      in fold (\<lambda>row. fold (\<lambda>col. cellPush r (row * cols g + col)) [startCol..endCol])
           [startRow..endRow] g)"

text \<open>\<open>Set.add\<close> on a set kept in insertion order.\<close>

definition setAdd :: "'a \<Rightarrow> 'a list \<Rightarrow> 'a list" where
  "setAdd v s = (if v \<in> set s then s else s @ [v])"

definition getNearbyObjects :: "spatialGrid \<Rightarrow> store \<Rightarrow> ref \<Rightarrow> ref list \<Rightarrow> ref list" where
  "getNearbyObjects g h r targetObjects =
     (let bounds = getBounds (h r);
          startCol = max 0 \<lfloor>bLeft bounds / cellSize g\<rfloor>;
          endCol = min (cols g - 1) \<lfloor>bRight bounds / cellSize g\<rfloor>;
          startRow = max 0 \<lfloor>bTop bounds / cellSize g\<rfloor>;
          endRow = min (rows g - 1) \<lfloor>bBottom bounds / cellSize g\<rfloor>
      in fold (\<lambda>row. fold (\<lambda>col.
             fold (\<lambda>gridObj nearbyObjects.
                     if gridObj \<in> set targetObjects \<and> gridObj \<noteq> r
                     then setAdd gridObj nearbyObjects else nearbyObjects)
                  (grid g ! nat (row * cols g + col)))
             [startCol..endCol])
           [startRow..endRow] [])"

text \<open>
  \<open>updateSpatialGrid\<close>: the grid is cleared and every active \<open>GameObject\<close> of the registry
  is inserted, in registry order.
\<close>

definition updateSpatialGrid :: "store \<Rightarrow> ref list \<Rightarrow> spatialGrid \<Rightarrow> spatialGrid" where
  "updateSpatialGrid h gameObjects g =
     fold (\<lambda>r g. if active (h r) \<and> cls (h r) \<noteq> Foreign then gridInsert h r g else g)
       gameObjects (clear g)"

text \<open>
  The cells (row, column) that the clamped range of an object covers, and the objects that
  occupy at least one cell of the grid.
\<close>

definition cellsOf :: "spatialGrid \<Rightarrow> gobj \<Rightarrow> (int \<times> int) set" where
  "cellsOf g obj =
     {max 0 \<lfloor>bTop (getBounds obj) / cellSize g\<rfloor> .. min (rows g - 1) \<lfloor>bBottom (getBounds obj) / cellSize g\<rfloor>}
     \<times> {max 0 \<lfloor>bLeft (getBounds obj) / cellSize g\<rfloor> .. min (cols g - 1) \<lfloor>bRight (getBounds obj) / cellSize g\<rfloor>}"

definition inGrid :: "spatialGrid \<Rightarrow> ref \<Rightarrow> bool" where
  "inGrid g r = (\<exists>cell \<in> set (grid g). r \<in> set cell)"

section \<open>The world: object store, registry and collision system\<close>

text \<open>
  Calls that leave the modelled part of the program are recorded as events, in the order in
  which they happen. \<open>OnCollision a b\<close> records that the dispatcher invoked
  \<open>a.onCollision(b)\<close>; the other events are the calls of the collision hooks into the game
  state manager (\<open>loseLife\<close>, \<open>addScore\<close>, \<open>setWeaponLevel\<close>). Calls into the user
  interface and the console, the colour flash of a damaged enemy and the explosion effect
  only draw or print and are left out.
\<close>

datatype event = OnCollision ref ref | LoseLife real | AddScore real | SetWeaponLevel real

datatype scene = START | GAME | PAUSE | LEVEL_CLEAR | GAME_OVER | VICTORY

text \<open>
  The state that the update phase works on. \<open>heap\<close> is the object store and \<open>gameObjects\<close>
  the registry (the array \<open>gameEngine.gameObjects\<close>, a list of references); \<open>nextRef\<close> is
  the address the next \<open>new\<close> object gets. The fields of the collision system
  (\<open>enabled\<close>, \<open>debugMode\<close>, \<open>spatialGrid\<close>, \<open>collisionPairs\<close> and the four counters of
  \<open>stats\<close>), of the input manager (\<open>keys\<close>, \<open>keysPressed\<close>, \<open>keysReleased\<close>) and of the
  scene manager (\<open>currentScene\<close>) are fields of the same record. \<open>randomsUsed\<close> counts the
  calls of \<open>Math.random\<close> so far.
\<close>

record world =
  heap :: store
  gameObjects :: "ref list"
  nextRef :: ref
  canvasWidth :: real
  canvasHeight :: real
  enabled :: bool
  debugMode :: bool
  spatialGrid :: spatialGrid
  collisionPairs :: "string set"
  checksPerFrame :: int
  collisionsPerFrame :: int
  totalChecks :: int
  totalCollisions :: int
  keys :: "string set"
  keysPressed :: "string set"
  keysReleased :: "string set"
  currentScene :: scene
  randomsUsed :: nat
  trace :: "event list"

text \<open>
  What the program takes from its platform and from the collaborators that are not
  modelled: the successive results of \<open>Math.random()\<close>; the id string that
  \<open>GameObject.generateId\<close> builds from the clock and a random number; the conversion of a
  number to a string in a template literal; the \<open>update\<close> method of a registered object
  (a dynamic call: movement and behaviour of the entity types); and the \<open>update\<close> methods
  of the scene manager, the damage system, the level manager, the game state manager and
  the user interface system.
\<close>

record platform =
  mathRandom :: "nat \<Rightarrow> real"
  generateId :: "nat \<Rightarrow> string"
  numberToString :: "real \<Rightarrow> string"
  objUpdate :: "real \<Rightarrow> ref \<Rightarrow> world \<Rightarrow> world"
  sceneManagerUpdate :: "real \<Rightarrow> world \<Rightarrow> world"
  damageSystemUpdate :: "real \<Rightarrow> world \<Rightarrow> world"
  levelManagerUpdate :: "real \<Rightarrow> world \<Rightarrow> world"
  gameStateManagerUpdate :: "real \<Rightarrow> world \<Rightarrow> world"
  uiSystemUpdate :: "real \<Rightarrow> world \<Rightarrow> world"

definition modify :: "ref \<Rightarrow> (gobj \<Rightarrow> gobj) \<Rightarrow> world \<Rightarrow> world" where
  "modify r f s = s\<lparr>heap := (heap s)(r := f (heap s r))\<rparr>"

definition emit :: "event \<Rightarrow> world \<Rightarrow> world" where
  "emit e s = s\<lparr>trace := trace s @ [e]\<rparr>"

definition addGameObject :: "ref \<Rightarrow> world \<Rightarrow> world" where
  "addGameObject r s = s\<lparr>gameObjects := gameObjects s @ [r]\<rparr>"

subsection \<open>Weapon and WeaponManager\<close>

definition newWeapon :: "weaponType \<Rightarrow> weapon" where
  "newWeapon t =
     (case t of
        basic \<Rightarrow> \<lparr> weaponType = t, w_damage = 1, fireRate = 300, bulletSpeed = 400 \<rparr>
      | rapid \<Rightarrow> \<lparr> weaponType = t, w_damage = 1, fireRate = 180, bulletSpeed = 450 \<rparr>
      | spread \<Rightarrow> \<lparr> weaponType = t, w_damage = 1, fireRate = 350, bulletSpeed = 380 \<rparr>
      | laser \<Rightarrow> \<lparr> weaponType = t, w_damage = 2, fireRate = 400, bulletSpeed = 550 \<rparr>)"

definition Weapon_upgrade :: "real \<Rightarrow> weapon \<Rightarrow> weapon" where
  "Weapon_upgrade level w =
     (let multiplier = 1 + (level - 1) * 0.15;
          newBulletSpeed = of_int \<lfloor>bulletSpeed w * multiplier\<rfloor>
      in w\<lparr> w_damage := of_int \<lfloor>w_damage w * multiplier\<rfloor>,
            fireRate := max 80 (of_int \<lfloor>fireRate w / multiplier\<rfloor>),
            bulletSpeed := min 800 newBulletSpeed \<rparr>)"

definition weaponProgression :: "weaponType list" where
  "weaponProgression = [basic, rapid, spread, laser]"

definition newWeaponManager :: weaponManager where
  "newWeaponManager =
     \<lparr> currentWeapon = newWeapon basic, weaponLevel = 1, maxLevel = 3, currentWeaponIndex = 0 \<rparr>"

text \<open>\<open>Array.indexOf\<close>: the first position of the value, or \<open>-1\<close>.\<close>

fun indexOf :: "'a \<Rightarrow> 'a list \<Rightarrow> int" where
  "indexOf v [] = - 1"
| "indexOf v (x # xs) =
     (if x = v then 0 else let i = indexOf v xs in if i = - 1 then - 1 else i + 1)"

text \<open>
  \<open>WeaponManager.upgradeWeapon\<close>. Reading the progression outside its range gives
  \<open>undefined\<close>, for which the \<open>Weapon\<close> constructor takes its default type \<open>basic\<close>.
\<close>

definition WeaponManager_upgradeWeapon :: "weaponType option \<Rightarrow> weaponManager \<Rightarrow> weaponManager" where
  "WeaponManager_upgradeWeapon newWeaponType wm =
     (case newWeaponType of
        Some t \<Rightarrow>
          wm\<lparr> currentWeapon := newWeapon t,
               currentWeaponIndex :=
                 (if indexOf t weaponProgression = - 1 then 0 else indexOf t weaponProgression) \<rparr>
      | None \<Rightarrow>
          if currentWeaponIndex wm < int (length weaponProgression) - 1
          then let i = currentWeaponIndex wm + 1;
                   nextWeaponType =
                     (if 0 \<le> i \<and> i < int (length weaponProgression)
                      then weaponProgression ! nat i else basic)
               in wm\<lparr> currentWeaponIndex := i, currentWeapon := newWeapon nextWeaponType \<rparr>
          else let level = min (maxLevel wm) (weaponLevel wm + 1)
               in wm\<lparr> weaponLevel := level,
                       currentWeapon := Weapon_upgrade level (currentWeapon wm) \<rparr>)"

subsection \<open>The collision hooks of the entity classes\<close>

text \<open>
  Every object of the registry was added by \<open>addGameObject\<close>, which sets its
  \<open>gameEngine\<close> field, and the engine always has its game state manager and its user
  interface system; the guards on these fields are therefore taken as true.
\<close>

definition GameObject_destroy :: "ref \<Rightarrow> world \<Rightarrow> world" where
  "GameObject_destroy this s = modify this destroy s"

definition Player_upgradeWeapon :: "ref \<Rightarrow> weaponType option \<Rightarrow> world \<Rightarrow> world" where
  "Player_upgradeWeapon this wt s =
     (case weaponManager (heap s this) of
        None \<Rightarrow> s
      | Some wm \<Rightarrow>
          let wm' = WeaponManager_upgradeWeapon wt wm;
              s = modify this (\<lambda>obj. obj\<lparr>weaponManager := Some wm'\<rparr>) s
          in emit (SetWeaponLevel (weaponLevel wm')) s)"

definition Player_onDeath :: "ref \<Rightarrow> world \<Rightarrow> world" where
  "Player_onDeath this s = modify this (\<lambda>obj. obj\<lparr>active := False\<rparr>) s"

definition Player_takeDamage :: "ref \<Rightarrow> real \<Rightarrow> world \<Rightarrow> world" where
  "Player_takeDamage this dmg s =
     (if invulnerable (heap s this) \<or> \<not> active (heap s this) then s
      else
        let s = modify this (\<lambda>obj. obj\<lparr>health := health obj - dmg\<rparr>) s;
            s = emit (LoseLife dmg) s
        in if health (heap s this) \<le> 0 then Player_onDeath this s
           else modify this (\<lambda>obj. obj\<lparr>invulnerable := True,
                                        invulnerabilityTime := invulnerabilityDuration obj\<rparr>) s)"

definition Player_onCollision :: "ref \<Rightarrow> ref \<Rightarrow> world \<Rightarrow> world" where
  "Player_onCollision this other s =
     (if cls (heap s other) = WeaponPickup \<and> active (heap s other) then
        let s = (if weaponManager (heap s this) \<noteq> None
                 then Player_upgradeWeapon this None s else s)
        in GameObject_destroy other s
      else if cls (heap s other) = Bullet \<and> \<not> isPlayerBullet (heap s other) then
        let s = Player_takeDamage this 1 s
        in GameObject_destroy other s
      else if cls (heap s other) = Enemy then Player_takeDamage this 1 s
      else s)"

text \<open>
  The \<open>WeaponPickup\<close> constructor: the base constructor draws the id, then the weapon
  type is drawn, then the horizontal velocity; three calls of \<open>Math.random\<close> in all. The
  new object gets the next free address.
\<close>

definition newWeaponPickup :: "platform \<Rightarrow> real \<Rightarrow> real \<Rightarrow> world \<Rightarrow> ref \<times> world" where
  "newWeaponPickup E px py s =
     (let n = randomsUsed s;
          obj = (newGameObject (generateId E n) px py)
                  \<lparr> cls := WeaponPickup, width := 16, height := 16,
                    vx := (mathRandom E (n + 2) - 0.5) * 50, vy := - 30 \<rparr>;
          r = nextRef s
      in (r, s\<lparr> heap := (heap s)(r := obj), nextRef := r + 1, randomsUsed := n + 3 \<rparr>))"

definition Enemy_checkWeaponDrop :: "platform \<Rightarrow> ref \<Rightarrow> world \<Rightarrow> world" where
  "Enemy_checkWeaponDrop E this s =
     (let n = randomsUsed s;
          s = s\<lparr>randomsUsed := n + 1\<rparr>
      in if mathRandom E n < 0.2 then
           let (weaponPickup, s) = newWeaponPickup E (obj_x (heap s this)) (obj_y (heap s this)) s
           in addGameObject weaponPickup s
         else s)"

definition Enemy_onDeath :: "platform \<Rightarrow> ref \<Rightarrow> world \<Rightarrow> world" where
  "Enemy_onDeath E this s =
     (let s = emit (AddScore (points (heap s this))) s;
          s = Enemy_checkWeaponDrop E this s
      in GameObject_destroy this s)"

definition Enemy_takeDamage :: "platform \<Rightarrow> ref \<Rightarrow> real \<Rightarrow> world \<Rightarrow> world" where
  "Enemy_takeDamage E this dmg s =
     (if \<not> active (heap s this) then s
      else
        let s = modify this (\<lambda>obj. obj\<lparr>health := health obj - dmg\<rparr>) s
        in if health (heap s this) \<le> 0 then Enemy_onDeath E this s else s)"

definition Enemy_onCollision :: "platform \<Rightarrow> ref \<Rightarrow> ref \<Rightarrow> world \<Rightarrow> world" where
  "Enemy_onCollision E this other s =
     (if cls (heap s other) = Bullet \<and> isPlayerBullet (heap s other) then
        let s = Enemy_takeDamage E this (damage (heap s other)) s
        in GameObject_destroy other s
      else if cls (heap s other) = Player then Enemy_takeDamage E this 999 s
      else s)"

definition Bullet_onCollision :: "platform \<Rightarrow> ref \<Rightarrow> ref \<Rightarrow> world \<Rightarrow> world" where
  "Bullet_onCollision E this other s =
     (if isPlayerBullet (heap s this) then
        if cls (heap s other) = Enemy then
          let s = Enemy_takeDamage E other (damage (heap s this)) s
          in if piercing (heap s this) \<and> pierceCount (heap s this) < maxPierceCount (heap s this)
             then modify this (\<lambda>obj. obj\<lparr>pierceCount := pierceCount obj + 1\<rparr>) s
             else GameObject_destroy this s
        else s
      else
        if cls (heap s other) = Player then
          let s = Player_takeDamage other (damage (heap s this)) s
          in GameObject_destroy this s
        else s)"

definition WeaponPickup_onCollision :: "ref \<Rightarrow> ref \<Rightarrow> world \<Rightarrow> world" where
  "WeaponPickup_onCollision this other s =
     (if cls (heap s other) = Player \<and> active (heap s this) then
        let s = Player_upgradeWeapon other None s
        in GameObject_destroy this s
      else s)"

text \<open>
  The dynamic call \<open>obj.onCollision(other)\<close>, by the class of \<open>obj\<close>; the base class does
  nothing. The call is recorded in the trace before the hook runs.
\<close>

definition onCollision :: "platform \<Rightarrow> ref \<Rightarrow> ref \<Rightarrow> world \<Rightarrow> world" where
  "onCollision E this other s =
     (let s = emit (OnCollision this other) s
      in case cls (heap s this) of
           Player \<Rightarrow> Player_onCollision this other s
         | Enemy \<Rightarrow> Enemy_onCollision E this other s
         | Bullet \<Rightarrow> Bullet_onCollision E this other s
         | WeaponPickup \<Rightarrow> WeaponPickup_onCollision this other s
         | GameObject \<Rightarrow> s
         | Foreign \<Rightarrow> s)"

text \<open>\<open>obj.onCollision\<close> is defined for every \<open>GameObject\<close> and missing on other objects.\<close>

definition hasOnCollision :: "gobj \<Rightarrow> bool" where
  "hasOnCollision obj = (cls obj \<noteq> Foreign)"

subsection \<open>The resolution dispatcher\<close>

definition constructorName :: "cls \<Rightarrow> string" where
  "constructorName c =
     (case c of Player \<Rightarrow> ''Player'' | Enemy \<Rightarrow> ''Enemy'' | Bullet \<Rightarrow> ''Bullet''
      | WeaponPickup \<Rightarrow> ''WeaponPickup'' | GameObject \<Rightarrow> ''GameObject'' | Foreign \<Rightarrow> ''Object'')"

text \<open>\<open>obj.id || `${obj.constructor.name}_${obj.x}_${obj.y}`\<close>\<close>

definition idOrFallback :: "platform \<Rightarrow> gobj \<Rightarrow> string" where
  "idOrFallback E obj =
     (if obj_id obj \<noteq> [] then obj_id obj
      else constructorName (cls obj) @ ''_'' @ numberToString E (obj_x obj) @ ''_'' @
           numberToString E (obj_y obj))"

definition pairKey :: "platform \<Rightarrow> gobj \<Rightarrow> gobj \<Rightarrow> string" where
  "pairKey E obj1 obj2 = idOrFallback E obj1 @ ''-'' @ idOrFallback E obj2"

text \<open>
  The two guarded hook calls at the end of \<open>handleCollision\<close>, and \<open>handleCollision\<close> itself:
  the key is built and looked up only for a pair that is not a player with a weapon pickup,
  and a recorded key ends the call before any hook.
\<close>

definition invokeHooks :: "platform \<Rightarrow> ref \<Rightarrow> ref \<Rightarrow> world \<Rightarrow> world" where
  "invokeHooks E obj1 obj2 s =
     (let s = (if hasOnCollision (heap s obj1) then onCollision E obj1 obj2 s else s);
          s = (if hasOnCollision (heap s obj2) then onCollision E obj2 obj1 s else s)
      in s)"

definition handleCollision :: "platform \<Rightarrow> ref \<Rightarrow> ref \<Rightarrow> world \<Rightarrow> world" where
  "handleCollision E obj1 obj2 s =
     (let isWeaponPickup = isWeaponPickupPair (heap s obj1) (heap s obj2)
      in if \<not> isWeaponPickup then
           let key = pairKey E (heap s obj1) (heap s obj2)
           in if key \<in> collisionPairs s then s
              else invokeHooks E obj1 obj2 (s\<lparr>collisionPairs := insert key (collisionPairs s)\<rparr>)
         else invokeHooks E obj1 obj2 s)"

subsection \<open>The broad phase: one pass per category\<close>

text \<open>
  Each category selects its objects from the registry once, before its loop starts; the
  loops then run over these arrays while the hooks change the store. \<open>forEach\<close> is
  \<^const>\<open>fold\<close>, \<open>filter\<close> is \<^const>\<open>filter\<close> and \<open>find\<close> is \<^const>\<open>find\<close>.
\<close>

definition countCheck :: "world \<Rightarrow> world" where
  "countCheck s = s\<lparr>checksPerFrame := checksPerFrame s + 1\<rparr>"

definition countCollision :: "world \<Rightarrow> world" where
  "countCollision s = s\<lparr>collisionsPerFrame := collisionsPerFrame s + 1\<rparr>"

text \<open>
  The body that the loops of the box categories share: the check is counted, the pair is
  tested with \<open>checkCollision\<close> on the current state of the two objects, and a collision is
  dispatched and counted.
\<close>

definition testPair :: "platform \<Rightarrow> ref \<Rightarrow> ref \<Rightarrow> world \<Rightarrow> world" where
  "testPair E obj1 obj2 s =
     (let s = countCheck s
      in if checkCollision (heap s obj1) (heap s obj2)
         then countCollision (handleCollision E obj1 obj2 s)
         else s)"

definition checkPlayerBulletEnemyCollisions :: "platform \<Rightarrow> world \<Rightarrow> world" where
  "checkPlayerBulletEnemyCollisions E s =
     (let playerBullets = filter (\<lambda>r. cls (heap s r) = Bullet \<and> isPlayerBullet (heap s r) \<and>
                                       active (heap s r)) (gameObjects s);
          enemies = filter (\<lambda>r. cls (heap s r) = Enemy \<and> active (heap s r)) (gameObjects s)
      in fold (\<lambda>bullet s.
                 let nearbyEnemies = getNearbyObjects (spatialGrid s) (heap s) bullet enemies
                 in fold (\<lambda>enemy. testPair E bullet enemy) nearbyEnemies s)
           playerBullets s)"

definition checkEnemyBulletPlayerCollisions :: "platform \<Rightarrow> world \<Rightarrow> world" where
  "checkEnemyBulletPlayerCollisions E s =
     (let enemyBullets = filter (\<lambda>r. cls (heap s r) = Bullet \<and> \<not> isPlayerBullet (heap s r) \<and>
                                      active (heap s r)) (gameObjects s)
      in case find (\<lambda>r. cls (heap s r) = Player \<and> active (heap s r)) (gameObjects s) of
           None \<Rightarrow> s
         | Some player \<Rightarrow> fold (\<lambda>bullet. testPair E bullet player) enemyBullets s)"

definition checkPlayerEnemyCollisions :: "platform \<Rightarrow> world \<Rightarrow> world" where
  "checkPlayerEnemyCollisions E s =
     (let enemies = filter (\<lambda>r. cls (heap s r) = Enemy \<and> active (heap s r)) (gameObjects s)
      in case find (\<lambda>r. cls (heap s r) = Player \<and> active (heap s r)) (gameObjects s) of
           None \<Rightarrow> s
         | Some player \<Rightarrow> fold (\<lambda>enemy. testPair E player enemy) enemies s)"

text \<open>
  The body of the loop over the weapon pickups: first the plain distance test against 30
  pixels, and only when that fails the general \<open>checkCollision\<close>, which for this pair is
  the circle test.
\<close>

definition testPickup :: "platform \<Rightarrow> ref \<Rightarrow> ref \<Rightarrow> world \<Rightarrow> world" where
  "testPickup E player pickup s =
     (let s = countCheck s;
          distance = distanceTo (heap s player) (heap s pickup)
      in if distance \<le> 30 then countCollision (handleCollision E player pickup s)
         else if checkCollision (heap s player) (heap s pickup)
              then countCollision (handleCollision E player pickup s)
              else s)"

definition checkPlayerWeaponPickupCollisions :: "platform \<Rightarrow> world \<Rightarrow> world" where
  "checkPlayerWeaponPickupCollisions E s =
     (let weaponPickups = filter (\<lambda>r. cls (heap s r) = WeaponPickup \<and> active (heap s r))
                            (gameObjects s)
      in case find (\<lambda>r. cls (heap s r) = Player \<and> active (heap s r)) (gameObjects s) of
           None \<Rightarrow> s
         | Some player \<Rightarrow> fold (\<lambda>pickup. testPickup E player pickup) weaponPickups s)"

definition checkBulletBulletCollisions :: "platform \<Rightarrow> world \<Rightarrow> world" where
  "checkBulletBulletCollisions E s =
     (let playerBullets = filter (\<lambda>r. cls (heap s r) = Bullet \<and> isPlayerBullet (heap s r) \<and>
                                       active (heap s r)) (gameObjects s);
          enemyBullets = filter (\<lambda>r. cls (heap s r) = Bullet \<and> \<not> isPlayerBullet (heap s r) \<and>
                                      active (heap s r)) (gameObjects s)
      in fold (\<lambda>playerBullet. fold (\<lambda>enemyBullet. testPair E playerBullet enemyBullet) enemyBullets)
           playerBullets s)"

definition performCollisionDetection :: "platform \<Rightarrow> world \<Rightarrow> world" where
  "performCollisionDetection E s =
     (let s = s\<lparr>collisionPairs := {}\<rparr>;
          s = checkPlayerBulletEnemyCollisions E s;
          s = checkEnemyBulletPlayerCollisions E s;
          s = checkPlayerEnemyCollisions E s;
          s = checkPlayerWeaponPickupCollisions E s
      in if debugMode s then checkBulletBulletCollisions E s else s)"

definition CollisionSystem_update :: "platform \<Rightarrow> real \<Rightarrow> world \<Rightarrow> world" where
  "CollisionSystem_update E deltaTime s =
     (if \<not> enabled s then s
      else
        let s = s\<lparr>checksPerFrame := 0, collisionsPerFrame := 0\<rparr>;
            s = s\<lparr>spatialGrid := updateSpatialGrid (heap s) (gameObjects s) (spatialGrid s)\<rparr>;
            s = performCollisionDetection E s
        in s\<lparr> totalChecks := totalChecks s + checksPerFrame s,
               totalCollisions := totalCollisions s + collisionsPerFrame s \<rparr>)"

section \<open>GameEngine: the update phase and the scheduler\<close>

text \<open>
  \<open>GameObject.update\<close> of the base class with its bounds check; an object that has left the
  canvas is destroyed (\<open>onOutOfBounds\<close>).
\<close>

definition GameObject_checkBounds :: "ref \<Rightarrow> world \<Rightarrow> world" where
  "GameObject_checkBounds this s =
     (let obj = heap s this;
          halfWidth = width obj / 2;
          halfHeight = height obj / 2
      in if obj_x obj + halfWidth < 0 \<or> obj_x obj - halfWidth > canvasWidth s \<or>
            obj_y obj + halfHeight < 0 \<or> obj_y obj - halfHeight > canvasHeight s
         then GameObject_destroy this s else s)"

definition GameObject_update :: "real \<Rightarrow> ref \<Rightarrow> world \<Rightarrow> world" where
  "GameObject_update deltaTime this s =
     (if \<not> active (heap s this) then s
      else
        let s = modify this (\<lambda>obj. obj\<lparr>obj_x := obj_x obj + vx obj * (deltaTime / 1000)\<rparr>) s;
            s = modify this (\<lambda>obj. obj\<lparr>obj_y := obj_y obj + vy obj * (deltaTime / 1000)\<rparr>) s
        in GameObject_checkBounds this s)"

text \<open>\<open>Array.splice(i, 1)\<close>\<close>

definition splice1 :: "nat \<Rightarrow> 'a list \<Rightarrow> 'a list" where
  "splice1 i xs = take i xs @ drop (Suc i) xs"

text \<open>
  The loop over the registry in \<open>update\<close>, from the last index down to 0: the argument
  \<open>n\<close> is the number of indices still to visit, so the next index is \<open>n - 1\<close>. Each object
  is updated and, when its \<open>shouldDestroy\<close> flag is set afterwards, spliced out at once.
  Reading the array beyond its end gives \<open>undefined\<close>, and the property access on it throws
  a \<open>TypeError\<close>: this is the result \<open>None\<close>.
\<close>

fun updateObjects :: "platform \<Rightarrow> real \<Rightarrow> nat \<Rightarrow> world \<Rightarrow> world option" where
  "updateObjects E deltaTime 0 s = Some s"
| "updateObjects E deltaTime (Suc i) s =
     (if i < length (gameObjects s) then
        let obj = gameObjects s ! i;
            s = objUpdate E deltaTime obj s;
            s = (if shouldDestroy (heap s obj)
                 then s\<lparr>gameObjects := splice1 i (gameObjects s)\<rparr> else s)
        in updateObjects E deltaTime i s
      else None)"

definition isInGame :: "world \<Rightarrow> bool" where
  "isInGame s = (currentScene s = GAME)"

definition InputManager_update :: "world \<Rightarrow> world" where
  "InputManager_update s = s\<lparr>keysPressed := {}, keysReleased := {}\<rparr>"

definition isPausePressed :: "world \<Rightarrow> bool" where
  "isPausePressed s = (''p'' \<in> keysPressed s \<or> ''P'' \<in> keysPressed s)"

text \<open>
  \<open>GameEngine.update\<close>. Its first call, \<open>handleInput\<close>, has an empty body. An object without
  an \<open>update\<close> method is one on which \<open>objUpdate\<close> changes nothing.
\<close>

definition update :: "platform \<Rightarrow> real \<Rightarrow> world \<Rightarrow> world option" where
  "update E deltaTime s =
     (case updateObjects E deltaTime (length (gameObjects s)) s of
        None \<Rightarrow> None
      | Some s \<Rightarrow>
          let s = sceneManagerUpdate E deltaTime s;
              s = (if isInGame s then
                     let s = CollisionSystem_update E deltaTime s;
                         s = damageSystemUpdate E deltaTime s
                     in levelManagerUpdate E deltaTime s
                   else s);
              s = gameStateManagerUpdate E deltaTime s;
              s = uiSystemUpdate E deltaTime s
          in Some (InputManager_update s))"

text \<open>
  The scheduler. \<open>calls\<close> lists, in order, the calls that \<open>gameLoop\<close> has made:
  to \<open>handlePauseInput\<close>, to \<open>update\<close> with its argument, to \<open>inputManager.update\<close> on the
  paused path, to \<open>render\<close> and to \<open>requestAnimationFrame\<close>.
\<close>

datatype call = HandlePauseInput | Update real | InputManagerUpdate | Render | RequestAnimationFrame

record gameEngine =
  isRunning :: bool
  isPaused :: bool
  lastTime :: real
  targetFPS :: real
  frameInterval :: real
  frameCount :: int
  fpsTimer :: real
  currentFPS :: int
  sim :: world
  calls :: "call list"

definition called :: "call \<Rightarrow> gameEngine \<Rightarrow> gameEngine" where
  "called c e = e\<lparr>calls := calls e @ [c]\<rparr>"

definition pause :: "gameEngine \<Rightarrow> gameEngine" where
  "pause e = e\<lparr>isPaused := \<not> isPaused e\<rparr>"

definition handlePauseInput :: "gameEngine \<Rightarrow> gameEngine" where
  "handlePauseInput e =
     (let e = called HandlePauseInput e
      in if isPausePressed (sim e) then pause e else e)"

text \<open>\<open>render\<close> draws the current state and changes none of it.\<close>

definition render :: "gameEngine \<Rightarrow> gameEngine" where
  "render e = called Render e"

text \<open>
  \<open>gameLoop\<close>, one tick; \<open>currentTime\<close> is what \<open>performance.now()\<close> returns in it. An exception
  thrown in \<open>update\<close> leaves the tick before \<open>requestAnimationFrame\<close> is reached.
\<close>

definition gameLoop :: "platform \<Rightarrow> real \<Rightarrow> gameEngine \<Rightarrow> gameEngine option" where
  "gameLoop E currentTime e =
     (if \<not> isRunning e then Some e
      else
        let deltaTime = currentTime - lastTime e
        in if deltaTime \<ge> frameInterval e then
             let e = e\<lparr>frameCount := frameCount e + 1, fpsTimer := fpsTimer e + deltaTime\<rparr>;
                 e = (if fpsTimer e \<ge> 1000
                      then e\<lparr>currentFPS := frameCount e, frameCount := 0, fpsTimer := 0\<rparr> else e);
                 e = handlePauseInput e
             in case (if \<not> isPaused e
                      then map_option (\<lambda>w. (called (Update deltaTime) e)\<lparr>sim := w\<rparr>)
                             (update E deltaTime (sim e))
                      else Some ((called InputManagerUpdate e)\<lparr>sim := InputManager_update (sim e)\<rparr>)) of
                  None \<Rightarrow> None
                | Some e \<Rightarrow>
                    let e = render e;
                        e = e\<lparr>lastTime := currentTime - jsRem deltaTime (frameInterval e)\<rparr>
                    in Some (called RequestAnimationFrame e)
           else Some (called RequestAnimationFrame e))"

text \<open>
  \<open>start\<close>: \<open>lastTime\<close> is set to the current time \<open>now\<close> and the loop is entered at once;
  \<open>currentTime\<close> is the time that the first \<open>gameLoop\<close> reads.
\<close>

definition start :: "platform \<Rightarrow> real \<Rightarrow> real \<Rightarrow> gameEngine \<Rightarrow> gameEngine option" where
  "start E now currentTime e =
     (if isRunning e then Some e
      else gameLoop E currentTime
             (e\<lparr>isRunning := True, isPaused := False, lastTime := now, fpsTimer := 0, frameCount := 0\<rparr>))"

definition stop :: "gameEngine \<Rightarrow> gameEngine" where
  "stop e = e\<lparr>isRunning := False\<rparr>"

section \<open>Constructors\<close>

text \<open>
  The constructors of the entity classes, as far as the fields of \<^typ>\<open>gobj\<close> go, with
  the id given, and the initial state of the engine for a canvas of a given size.
\<close>

definition newPlayer :: "string \<Rightarrow> real \<Rightarrow> real \<Rightarrow> gobj" where
  "newPlayer ident px py =
     (newGameObject ident px py)
       \<lparr> cls := Player, width := 20, height := 20, health := 3,
         invulnerable := False, invulnerabilityTime := 0, invulnerabilityDuration := 2000,
         weaponManager := None \<rparr>"

definition initWeaponSystem :: "gobj \<Rightarrow> gobj" where
  "initWeaponSystem obj = obj\<lparr>weaponManager := Some newWeaponManager\<rparr>"

definition newEnemy :: "string \<Rightarrow> real \<Rightarrow> real \<Rightarrow> gobj" where
  "newEnemy ident px py =
     (newGameObject ident px py)
       \<lparr> cls := Enemy, width := 16, height := 16, health := 1, points := 10 \<rparr>"

definition newBullet :: "string \<Rightarrow> real \<Rightarrow> real \<Rightarrow> real \<Rightarrow> real \<Rightarrow> bool \<Rightarrow> gobj" where
  "newBullet ident px py pvx pvy playerBullet =
     (newGameObject ident px py)
       \<lparr> cls := Bullet, width := 4, height := 8, vx := pvx, vy := pvy,
         isPlayerBullet := playerBullet, damage := 1, piercing := False,
         maxPierceCount := 0, pierceCount := 0 \<rparr>"

definition newWorld :: "real \<Rightarrow> real \<Rightarrow> world" where
  "newWorld w h =
     \<lparr> heap = (\<lambda>r. newGameObject [] 0 0), gameObjects = [], nextRef = 0,
       canvasWidth = w, canvasHeight = h,
       enabled = True, debugMode = False, spatialGrid = newSpatialGrid w h 64,
       collisionPairs = {}, checksPerFrame = 0, collisionsPerFrame = 0,
       totalChecks = 0, totalCollisions = 0,
       keys = {}, keysPressed = {}, keysReleased = {},
       currentScene = START, randomsUsed = 0, trace = [] \<rparr>"

definition newGameEngine :: "real \<Rightarrow> real \<Rightarrow> gameEngine" where
  "newGameEngine w h =
     \<lparr> isRunning = False, isPaused = False, lastTime = 0, targetFPS = 60,
       frameInterval = 1000 / 60, frameCount = 0, fpsTimer = 0, currentFPS = 0,
       sim = newWorld w h, calls = [] \<rparr>"

text \<open>\<open>new\<close> followed by \<open>addGameObject\<close>: the object is stored at the next free address.\<close>

definition spawn :: "gobj \<Rightarrow> world \<Rightarrow> world" where
  "spawn obj s =
     addGameObject (nextRef s) (s\<lparr>heap := (heap s)(nextRef s := obj), nextRef := nextRef s + 1\<rparr>)"

text \<open>
  A platform for concrete runs: \<open>Math.random\<close> always returns one half, every registered
  object has the \<open>update\<close> method of the base class, and the other systems do nothing.
\<close>

definition basePlatform :: platform where
  "basePlatform =
     \<lparr> mathRandom = (\<lambda>n. 1 / 2), generateId = (\<lambda>n. ''obj''), numberToString = (\<lambda>v. ''0''),
       objUpdate = GameObject_update,
       sceneManagerUpdate = (\<lambda>dt s. s), damageSystemUpdate = (\<lambda>dt s. s),
       levelManagerUpdate = (\<lambda>dt s. s), gameStateManagerUpdate = (\<lambda>dt s. s),
       uiSystemUpdate = (\<lambda>dt s. s) \<rparr>"

section \<open>Concrete scenes\<close>

text \<open>
  The third scenario of the specification: a player with its weapon system at (200, 500)
  and a weapon pickup at height 500 and a given horizontal position, on a canvas of 800
  by 600. The player is object 0, the pickup object 1.
\<close>

definition pickupScene :: "real \<Rightarrow> world" where
  "pickupScene px =
     (let s = spawn (initWeaponSystem (newPlayer ''p'' 200 500)) (newWorld 800 600);
          (pickup, s) = newWeaponPickup basePlatform px 500 s
      in addGameObject pickup s)"

text \<open>
  A player with its weapon system (object 0), an enemy that overlaps it (object 1) and an
  object that is not a \<open>GameObject\<close> and has no collision hook (object 2).
\<close>

definition duelScene :: world where
  "duelScene =
     spawn ((newGameObject ''f'' 200 500)\<lparr>cls := Foreign\<rparr>)
       (spawn (newEnemy ''e'' 200 495)
          (spawn (initWeaponSystem (newPlayer ''p'' 200 500)) (newWorld 800 600)))"

text \<open>
  A running game: a player at rest (object 0) and an enemy bullet just above it that moves
  down at 200 pixels per second (object 1); the scene manager shows the game and no key is
  pressed. On the fields modelled here, \<open>Player.update\<close> and \<open>Bullet.update\<close> then do what
  the \<open>update\<close> of the base class does. \<open>bulletEngine\<close> is a started engine on this
  world whose last frame was at time 0.
\<close>

definition bulletScene :: world where
  "bulletScene =
     spawn (newBullet ''b'' 400 540 0 200 False)
       (spawn (initWeaponSystem (newPlayer ''p'' 400 550))
          ((newWorld 800 600)\<lparr>currentScene := GAME\<rparr>))"

definition bulletEngine :: gameEngine where
  "bulletEngine = (newGameEngine 800 600)\<lparr>isRunning := True, sim := bulletScene\<rparr>"

text \<open>
  A started engine with an empty registry whose last frame was at time 0, running and
  paused, and the paused one with a fresh press of the pause key waiting in the input
  manager.
\<close>

definition idleEngine :: gameEngine where
  "idleEngine = (newGameEngine 800 600)\<lparr>isRunning := True\<rparr>"

definition pausedEngine :: gameEngine where
  "pausedEngine = idleEngine\<lparr>isPaused := True\<rparr>"

definition pausedEngineKey :: gameEngine where
  "pausedEngineKey = pausedEngine\<lparr>sim := (sim pausedEngine)\<lparr>keysPressed := {''p''}\<rparr>\<rparr>"

text \<open>
  A grid of two by two cells of 64 pixels: the enemy (box from 56 to 72) straddles the
  boundary between the columns at 64, the bullet (box from 70 to 74) lies in the second
  column only.
\<close>

definition wstore :: store where
  "wstore = (\<lambda>r. newGameObject [] 0 0)
              (0 := newEnemy ''e'' 64 32, 1 := newBullet ''b'' 72 32 0 (- 400) True)"

definition wgrid :: spatialGrid where
  "wgrid = updateSpatialGrid wstore [0, 1] (newSpatialGrid 128 128 64)"

text \<open>
  The first frame of the running game at time 20: \<open>afterLoop\<close> is the world after the loop
  over the registry (the bullet has moved down by 4 pixels and now overlaps the player),
  \<open>frame1\<close> the world at the end of \<open>update\<close>.
\<close>

definition afterLoop :: world where
  "afterLoop = modify (Suc 0) (\<lambda>obj. obj\<lparr>obj_y := 544\<rparr>) bulletScene"

definition frame1 :: world where
  "frame1 = InputManager_update (CollisionSystem_update basePlatform 20 afterLoop)"

text \<open>
  The reach of the circle test for a player and a pickup: the two radii, half of the larger
  side each, and the margin of 10 that is added to the radius of the pickup.
\<close>

definition pickupReach :: "gobj \<Rightarrow> gobj \<Rightarrow> real" where
  "pickupReach player pickup =
     max (width player) (height player) / 2 + (max (width pickup) (height pickup) / 2 + 10)"

section \<open>Notions used in the statements about a frame\<close>

text \<open>
  \<open>sameEntity obj obj'\<close>: the later state \<open>obj'\<close> of an object still has the class, the id,
  the position, the size and (for a bullet) the side of the earlier state \<open>obj\<close>; a
  destruction flag that was set is still set, and an object that was inactive is still
  inactive.
\<close>

definition sameEntity :: "gobj \<Rightarrow> gobj \<Rightarrow> bool" where
  "sameEntity obj obj' \<longleftrightarrow>
     cls obj' = cls obj \<and> obj_id obj' = obj_id obj \<and>
     obj_x obj' = obj_x obj \<and> obj_y obj' = obj_y obj \<and>
     width obj' = width obj \<and> height obj' = height obj \<and>
     isPlayerBullet obj' = isPlayerBullet obj \<and>
     (shouldDestroy obj \<longrightarrow> shouldDestroy obj') \<and>
     (active obj' \<longrightarrow> active obj)"

text \<open>
  \<open>frameStable s s'\<close>: from \<open>s\<close> to \<open>s'\<close> no entry of the registry was removed or moved (the
  registry of \<open>s\<close> is a prefix of that of \<open>s'\<close>), and every object that exists in \<open>s\<close> is
  the same entity in \<open>s'\<close>.
\<close>

definition frameStable :: "world \<Rightarrow> world \<Rightarrow> bool" where
  "frameStable s s' \<longleftrightarrow>
     nextRef s \<le> nextRef s' \<and> prefix (gameObjects s) (gameObjects s') \<and>
     (\<forall>r < nextRef s. sameEntity (heap s r) (heap s' r))"

text \<open>The invocations of collision hooks in a trace.\<close>

fun isHookCall :: "event \<Rightarrow> bool" where
  "isHookCall (OnCollision a b) = True"
| "isHookCall e = False"

definition hookCalls :: "world \<Rightarrow> event list" where
  "hookCalls s = filter isHookCall (trace s)"

text \<open>
  \<open>quiet s s'\<close>: a step that is frame-stable, invokes no collision hook and leaves the
  fields of the collision system alone. Every collision hook is such a step once its
  invocation has been recorded.
\<close>

definition quiet :: "world \<Rightarrow> world \<Rightarrow> bool" where
  "quiet s s' \<longleftrightarrow> frameStable s s' \<and> collisionPairs s' = collisionPairs s \<and>
     hookCalls s' = hookCalls s \<and> collisionsPerFrame s' = collisionsPerFrame s \<and>
     checksPerFrame s' = checksPerFrame s \<and> debugMode s' = debugMode s \<and>
     spatialGrid s' = spatialGrid s"

text \<open>
  What the statements about the update loop assume of the \<open>update\<close> methods of the
  registered objects: such a method may add objects at the end of the registry (as firing
  a weapon does), but it removes and moves none, it clears no destruction flag, and what
  it adds is not an object that was already flagged.
\<close>

definition registryAppendOnly :: "platform \<Rightarrow> bool" where
  "registryAppendOnly E \<longleftrightarrow>
     (\<forall>dt r s.
        prefix (gameObjects s) (gameObjects (objUpdate E dt r s)) \<and>
        (\<forall>q. shouldDestroy (heap s q) \<longrightarrow>
               shouldDestroy (heap (objUpdate E dt r s) q) \<and>
               q \<notin> set (drop (length (gameObjects s)) (gameObjects (objUpdate E dt r s)))))"

text \<open>The calls of \<open>update\<close> among the calls of the scheduler.\<close>

fun isUpdateCall :: "call \<Rightarrow> bool" where
  "isUpdateCall (Update dt) = True"
| "isUpdateCall c = False"

text \<open>
  Two parts of the body of \<open>gameLoop\<close>, named for the proofs: the frame counting at its
  beginning, and its end from \<open>render\<close> on (the new \<open>lastTime\<close> and the request for the
  next animation frame).
\<close>

definition fpsCounted :: "real \<Rightarrow> gameEngine \<Rightarrow> gameEngine" where
  "fpsCounted deltaTime e =
     (let e = e\<lparr>frameCount := frameCount e + 1, fpsTimer := fpsTimer e + deltaTime\<rparr>
      in if fpsTimer e \<ge> 1000
         then e\<lparr>currentFPS := frameCount e, frameCount := 0, fpsTimer := 0\<rparr> else e)"

definition finishFrame :: "real \<Rightarrow> real \<Rightarrow> gameEngine \<Rightarrow> gameEngine" where
  "finishFrame currentTime deltaTime e =
     called RequestAnimationFrame
       ((render e)\<lparr>lastTime := currentTime - jsRem deltaTime (frameInterval (render e))\<rparr>)"

text \<open>A sequence of calls of the dispatcher within one frame.\<close>

definition resolveAll :: "platform \<Rightarrow> (ref \<times> ref) list \<Rightarrow> world \<Rightarrow> world" where
  "resolveAll E ps s = fold (\<lambda>(a, b). handleCollision E a b) ps s"

text \<open>
  The orders in which the categories of the collision pass hand a pair to the dispatcher:
  a player bullet with an enemy, an enemy bullet with the player, the player with an
  enemy, the player with a weapon pickup and, in debug mode, a player bullet with an enemy
  bullet.
\<close>

definition dispatchOrder :: "gobj \<Rightarrow> gobj \<Rightarrow> bool" where
  "dispatchOrder obj1 obj2 \<longleftrightarrow>
     (cls obj1 = Bullet \<and> isPlayerBullet obj1 \<and> cls obj2 = Enemy) \<or>
     (cls obj1 = Bullet \<and> \<not> isPlayerBullet obj1 \<and> cls obj2 = Player) \<or>
     (cls obj1 = Player \<and> cls obj2 = Enemy) \<or>
     (cls obj1 = Player \<and> cls obj2 = WeaponPickup) \<or>
     (cls obj1 = Bullet \<and> isPlayerBullet obj1 \<and> cls obj2 = Bullet \<and> \<not> isPlayerBullet obj2)"

text \<open>
  \<open>firedOnce E s0 x y t\<close>: \<open>t\<close> is a later state of the frame whose collision pass began
  in \<open>s0\<close>; since \<open>s0\<close> each of the two hook calls of the pair \<open>x\<close>, \<open>y\<close> has been made at
  most once, and not at all as long as the key of the pair is not recorded.
\<close>

definition firedOnce :: "platform \<Rightarrow> world \<Rightarrow> ref \<Rightarrow> ref \<Rightarrow> world \<Rightarrow> bool" where
  "firedOnce E s0 x y t \<longleftrightarrow>
     frameStable s0 t \<and>
     count_list (hookCalls t) (OnCollision x y) \<le> count_list (hookCalls s0) (OnCollision x y) + 1 \<and>
     count_list (hookCalls t) (OnCollision y x) \<le> count_list (hookCalls s0) (OnCollision y x) + 1 \<and>
     (pairKey E (heap s0 x) (heap s0 y) \<notin> collisionPairs t \<longrightarrow>
        count_list (hookCalls t) (OnCollision x y) = count_list (hookCalls s0) (OnCollision x y) \<and>
        count_list (hookCalls t) (OnCollision y x) = count_list (hookCalls s0) (OnCollision y x))"

text \<open>
  \<open>GameEngine.update\<close> around its call of the collision system: \<open>beforeCollision\<close> is the
  loop over the registry followed by the scene manager, \<open>afterCollision\<close> is what a frame
  of the running game does after the collision system.
\<close>

definition beforeCollision :: "platform \<Rightarrow> real \<Rightarrow> world \<Rightarrow> world option" where
  "beforeCollision E deltaTime s =
     (case updateObjects E deltaTime (length (gameObjects s)) s of
        None \<Rightarrow> None
      | Some s \<Rightarrow> Some (sceneManagerUpdate E deltaTime s))"

definition afterCollision :: "platform \<Rightarrow> real \<Rightarrow> world \<Rightarrow> world" where
  "afterCollision E deltaTime s =
     (let s = damageSystemUpdate E deltaTime s;
          s = levelManagerUpdate E deltaTime s;
          s = gameStateManagerUpdate E deltaTime s;
          s = uiSystemUpdate E deltaTime s
      in InputManager_update s)"

section \<open>Properties of the narrow phase\<close>

lemma checkAABBCollision_iff:
  "checkAABBCollision a b \<longleftrightarrow>
     bLeft (getBounds b) \<le> bRight (getBounds a) \<and> bLeft (getBounds a) \<le> bRight (getBounds b) \<and>
     bTop (getBounds b) \<le> bBottom (getBounds a) \<and> bTop (getBounds a) \<le> bBottom (getBounds b)"
  by (auto simp: checkAABBCollision_def Let_def)

lemma collidesWith_eq_AABB:
  "active a \<Longrightarrow> active b \<Longrightarrow> collidesWith a b = checkAABBCollision a b"
  by (simp add: collidesWith_def checkAABBCollision_def getBounds_def Let_def)

lemma boxOf_overlap_iff:
  assumes "0 \<le> width a" "0 \<le> height a" "0 \<le> width b" "0 \<le> height b"
  shows "boxOf a \<inter> boxOf b \<noteq> {} \<longleftrightarrow> checkAABBCollision a b"
proof
  assume "boxOf a \<inter> boxOf b \<noteq> {}"
  then obtain px py where "(px, py) \<in> boxOf a" "(px, py) \<in> boxOf b"
    by auto
  then show "checkAABBCollision a b"
    unfolding checkAABBCollision_iff by (simp add: boxOf_def)
next
  assume c: "checkAABBCollision a b"
  let ?px = "max (bLeft (getBounds a)) (bLeft (getBounds b))"
  let ?py = "max (bTop (getBounds a)) (bTop (getBounds b))"
  have wa: "bLeft (getBounds a) \<le> bRight (getBounds a)" "bTop (getBounds a) \<le> bBottom (getBounds a)"
    using assms by (simp_all add: getBounds_def)
  have wb: "bLeft (getBounds b) \<le> bRight (getBounds b)" "bTop (getBounds b) \<le> bBottom (getBounds b)"
    using assms by (simp_all add: getBounds_def)
  from c wa wb have "(?px, ?py) \<in> boxOf a" "(?px, ?py) \<in> boxOf b"
    unfolding checkAABBCollision_iff by (simp_all add: boxOf_def)
  then show "boxOf a \<inter> boxOf b \<noteq> {}"
    by blast
qed


text \<open>
  Claim C8. The default narrow-phase predicate is the box test \<open>checkAABBCollision\<close>. For
  two active objects with sizes that are not negative it is true exactly when the two
  axis-aligned boxes have a point in common, that is, exactly when neither box lies
  entirely to one side of the other along either axis. The method \<open>collidesWith\<close> of the
  objects computes the same, and \<open>checkCollision\<close> is this test for every pair that is not a
  player with a weapon pickup.
\<close>

theorem C8_default_predicate_is_box_overlap:
  assumes "active a" and "active b"
    and "0 \<le> width a" and "0 \<le> height a" and "0 \<le> width b" and "0 \<le> height b"
  shows "(checkAABBCollision a b \<longleftrightarrow> boxOf a \<inter> boxOf b \<noteq> {}) \<and>
         (checkAABBCollision a b \<longleftrightarrow> \<not> entirelyToOneSide a b) \<and>
         collidesWith a b = checkAABBCollision a b \<and>
         (\<not> isWeaponPickupPair a b \<longrightarrow> checkCollision a b = checkAABBCollision a b)"
proof -
  have "checkAABBCollision a b \<longleftrightarrow> \<not> entirelyToOneSide a b"
    by (auto simp: checkAABBCollision_iff entirelyToOneSide_def)
  moreover have "\<not> isWeaponPickupPair a b \<longrightarrow> checkCollision a b = checkAABBCollision a b"
    using assms(1,2) by (simp add: checkCollision_def)
  ultimately show ?thesis
    using assms boxOf_overlap_iff [of a b] collidesWith_eq_AABB [of a b] by simp
qed


text \<open>The bullet and the enemy of the first end-to-end scenario overlap.\<close>

theorem C8_witness:
  "active (newBullet ''b'' 100 100 0 (- 400) True) \<and> active (newEnemy ''e'' 100 104) \<and>
   (0::real) \<le> width (newBullet ''b'' 100 100 0 (- 400) True) \<and>
   (0::real) \<le> height (newBullet ''b'' 100 100 0 (- 400) True) \<and>
   (0::real) \<le> width (newEnemy ''e'' 100 104) \<and> (0::real) \<le> height (newEnemy ''e'' 100 104) \<and>
   \<not> isWeaponPickupPair (newBullet ''b'' 100 100 0 (- 400) True) (newEnemy ''e'' 100 104) \<and>
   checkCollision (newBullet ''b'' 100 100 0 (- 400) True) (newEnemy ''e'' 100 104) \<and>
   boxOf (newBullet ''b'' 100 100 0 (- 400) True) \<inter> boxOf (newEnemy ''e'' 100 104) \<noteq> {} \<and>
   \<not> entirelyToOneSide (newBullet ''b'' 100 100 0 (- 400) True) (newEnemy ''e'' 100 104)"
  using C8_default_predicate_is_box_overlap
          [of "newBullet ''b'' 100 100 0 (- 400) True" "newEnemy ''e'' 100 104"]
  by (simp add: newBullet_def newEnemy_def newGameObject_def isWeaponPickupPair_def
        checkAABBCollision_def getBounds_def)


text \<open>
  Claim C10. Two active objects whose boxes touch exactly on an edge or on a corner (an
  edge coordinate of one equals the opposite edge coordinate of the other, and the extents
  on the other axis meet) are reported as colliding: the code excludes a pair only by the
  strict comparisons \<open><\<close> and \<open>>\<close>, which equality does not satisfy.
\<close>

theorem C10_edge_contact_collides:
  assumes "active a" and "active b"
    and "0 \<le> width a" and "0 \<le> height a" and "0 \<le> width b" and "0 \<le> height b"
    and "edgeContact a b"
  shows "checkAABBCollision a b \<and> collidesWith a b \<and>
         (\<not> isWeaponPickupPair a b \<longrightarrow> checkCollision a b)"
proof -
  have wa: "bLeft (getBounds a) \<le> bRight (getBounds a)" "bTop (getBounds a) \<le> bBottom (getBounds a)"
    using assms by (simp_all add: getBounds_def)
  have wb: "bLeft (getBounds b) \<le> bRight (getBounds b)" "bTop (getBounds b) \<le> bBottom (getBounds b)"
    using assms by (simp_all add: getBounds_def)
  have c: "checkAABBCollision a b"
    using assms(7) wa wb unfolding checkAABBCollision_iff edgeContact_def by auto
  then show ?thesis
    using assms(1,2) collidesWith_eq_AABB [of a b] by (simp add: checkCollision_def)
qed


text \<open>Two boxes of 20 by 20 that meet in the single corner point (10, 10).\<close>

theorem C10_witness:
  "active (newGameObject ''a'' 0 0) \<and> active (newGameObject ''b'' 20 20) \<and>
   (0::real) \<le> width (newGameObject ''a'' 0 0) \<and> (0::real) \<le> height (newGameObject ''a'' 0 0) \<and>
   (0::real) \<le> width (newGameObject ''b'' 20 20) \<and> (0::real) \<le> height (newGameObject ''b'' 20 20) \<and>
   bRight (getBounds (newGameObject ''a'' 0 0)) = bLeft (getBounds (newGameObject ''b'' 20 20)) \<and>
   bBottom (getBounds (newGameObject ''a'' 0 0)) = bTop (getBounds (newGameObject ''b'' 20 20)) \<and>
   edgeContact (newGameObject ''a'' 0 0) (newGameObject ''b'' 20 20) \<and>
   \<not> isWeaponPickupPair (newGameObject ''a'' 0 0) (newGameObject ''b'' 20 20) \<and>
   checkAABBCollision (newGameObject ''a'' 0 0) (newGameObject ''b'' 20 20) \<and>
   collidesWith (newGameObject ''a'' 0 0) (newGameObject ''b'' 20 20) \<and>
   checkCollision (newGameObject ''a'' 0 0) (newGameObject ''b'' 20 20)"
  using C10_edge_contact_collides [of "newGameObject ''a'' 0 0" "newGameObject ''b'' 20 20"]
  by (simp add: newGameObject_def isWeaponPickupPair_def edgeContact_def getBounds_def)


section \<open>Properties of the spatial grid\<close>

lemma length_cellPush [simp]: "length (grid (cellPush r i g)) = length (grid g)"
  by (simp add: cellPush_def)

lemma cols_cellPush [simp]: "cols (cellPush r i g) = cols g"
  by (simp add: cellPush_def)

lemma set_cellPush:
  "i < length (grid g) \<Longrightarrow>
   set (grid (cellPush r idx g) ! i) = set (grid g ! i) \<union> (if nat idx = i then {r} else {})"
  by (auto simp: cellPush_def nth_list_update)

lemma fold_cols_props:
  "length (grid (fold (\<lambda>col. cellPush r (f col)) cs g)) = length (grid g) \<and>
   (\<forall>i < length (grid g).
     set (grid (fold (\<lambda>col. cellPush r (f col)) cs g) ! i) =
       set (grid g ! i) \<union> (if \<exists>col \<in> set cs. nat (f col) = i then {r} else {}))"
proof (induction cs arbitrary: g)
  case Nil
  then show ?case by simp
next
  case (Cons c cs)
  show ?case
    using Cons.IH [of "cellPush r (f c) g"]
    by (auto simp: set_cellPush)
qed

lemma fold_rows_props:
  "length (grid (fold (\<lambda>row. fold (\<lambda>col. cellPush r (f row col)) cs) rs g)) = length (grid g) \<and>
   (\<forall>i < length (grid g).
     set (grid (fold (\<lambda>row. fold (\<lambda>col. cellPush r (f row col)) cs) rs g) ! i) =
       set (grid g ! i) \<union> (if \<exists>row \<in> set rs. \<exists>col \<in> set cs. nat (f row col) = i then {r} else {}))"
proof (induction rs arbitrary: g)
  case Nil
  then show ?case by simp
next
  case (Cons a rs)
  show ?case
    using Cons.IH [of "fold (\<lambda>col. cellPush r (f a col)) cs g"] fold_cols_props [of r "f a" cs g]
    by (auto)
qed


lemma gridInsert_props:
  "length (grid (gridInsert h r g)) = length (grid g) \<and>
   (\<forall>i < length (grid g).
     set (grid (gridInsert h r g) ! i) =
       set (grid g ! i) \<union>
       (if \<exists>(row, col) \<in> cellsOf g (h r). nat (row * cols g + col) = i then {r} else {}))"
  using fold_rows_props [of r "\<lambda>row col. row * cols g + col"
      "[max 0 \<lfloor>bLeft (getBounds (h r)) / cellSize g\<rfloor> .. min (cols g - 1) \<lfloor>bRight (getBounds (h r)) / cellSize g\<rfloor>]"
      "[max 0 \<lfloor>bTop (getBounds (h r)) / cellSize g\<rfloor> .. min (rows g - 1) \<lfloor>bBottom (getBounds (h r)) / cellSize g\<rfloor>]" g]
  by (simp add: gridInsert_def cellsOf_def Let_def)

lemma fold_cellPush_shape:
  "cols (fold (\<lambda>col. cellPush r (f col)) cs g) = cols g \<and>
   rows (fold (\<lambda>col. cellPush r (f col)) cs g) = rows g \<and>
   cellSize (fold (\<lambda>col. cellPush r (f col)) cs g) = cellSize g"
  by (induction cs arbitrary: g) (simp_all add: cellPush_def)

lemma fold_fold_cellPush_shape:
  "cols (fold (\<lambda>row. fold (\<lambda>col. cellPush r (f row col)) cs) rs g) = cols g \<and>
   rows (fold (\<lambda>row. fold (\<lambda>col. cellPush r (f row col)) cs) rs g) = rows g \<and>
   cellSize (fold (\<lambda>row. fold (\<lambda>col. cellPush r (f row col)) cs) rs g) = cellSize g"
  by (induction rs arbitrary: g) (simp_all add: fold_cellPush_shape)

lemma gridInsert_shape:
  "cols (gridInsert h r g) = cols g \<and> rows (gridInsert h r g) = rows g \<and>
   cellSize (gridInsert h r g) = cellSize g"
  by (simp add: gridInsert_def Let_def fold_fold_cellPush_shape)

lemma cellsOf_cong:
  "cols g' = cols g \<Longrightarrow> rows g' = rows g \<Longrightarrow> cellSize g' = cellSize g \<Longrightarrow>
   cellsOf g' obj = cellsOf g obj"
  by (simp add: cellsOf_def)

lemma fold_insert_props:
  "cols (fold (\<lambda>r g. if active (h r) \<and> cls (h r) \<noteq> Foreign then gridInsert h r g else g) rs g) = cols g \<and>
   rows (fold (\<lambda>r g. if active (h r) \<and> cls (h r) \<noteq> Foreign then gridInsert h r g else g) rs g) = rows g \<and>
   cellSize (fold (\<lambda>r g. if active (h r) \<and> cls (h r) \<noteq> Foreign then gridInsert h r g else g) rs g) = cellSize g \<and>
   length (grid (fold (\<lambda>r g. if active (h r) \<and> cls (h r) \<noteq> Foreign then gridInsert h r g else g) rs g)) = length (grid g) \<and>
   (\<forall>i < length (grid g).
     set (grid (fold (\<lambda>r g. if active (h r) \<and> cls (h r) \<noteq> Foreign then gridInsert h r g else g) rs g) ! i) =
       set (grid g ! i) \<union>
       {r \<in> set rs. active (h r) \<and> cls (h r) \<noteq> Foreign \<and>
          (\<exists>(row, col) \<in> cellsOf g (h r). nat (row * cols g + col) = i)})"
proof (induction rs arbitrary: g)
  case Nil
  then show ?case by simp
next
  case (Cons a rs)
  show ?case
  proof (cases "active (h a) \<and> cls (h a) \<noteq> Foreign")
    case False
    then show ?thesis using Cons.IH [of g] by auto
  next
    case True
    have c: "\<And>obj. cellsOf (gridInsert h a g) obj = cellsOf g obj"
      by (rule cellsOf_cong) (simp_all add: gridInsert_shape)
    show ?thesis
      using True Cons.IH [of "gridInsert h a g"] gridInsert_props [of h a g]
      by (simp add: gridInsert_shape c) blast
  qed
qed


lemma updateSpatialGrid_shape:
  "cols (updateSpatialGrid h objs g) = cols g \<and> rows (updateSpatialGrid h objs g) = rows g \<and>
   cellSize (updateSpatialGrid h objs g) = cellSize g \<and>
   length (grid (updateSpatialGrid h objs g)) = nat (rows g * cols g)"
  using fold_insert_props [of h objs "clear g"]
  by (simp add: updateSpatialGrid_def clear_def)

lemma updateSpatialGrid_cell:
  assumes "i < nat (rows g * cols g)"
  shows "set (grid (updateSpatialGrid h objs g) ! i) =
     {r \<in> set objs. active (h r) \<and> cls (h r) \<noteq> Foreign \<and>
        (\<exists>(row, col) \<in> cellsOf g (h r). nat (row * cols g + col) = i)}"
proof -
  have c: "\<And>obj. cellsOf (clear g) obj = cellsOf g obj"
    by (rule cellsOf_cong) (simp_all add: clear_def)
  show ?thesis
    using assms fold_insert_props [of h objs "clear g"]
    by (simp add: updateSpatialGrid_def c) (simp add: clear_def)
qed

lemma fold_setAdd:
  "set (fold (\<lambda>v acc. if P v then setAdd v acc else acc) xs acc) = set acc \<union> {v \<in> set xs. P v}"
  by (induction xs arbitrary: acc) (auto simp: setAdd_def)

lemma fold_cols_query:
  "set (fold (\<lambda>col. fold (\<lambda>v acc. if P v then setAdd v acc else acc) (cell col)) cs acc) =
     set acc \<union> {v. P v \<and> (\<exists>col \<in> set cs. v \<in> set (cell col))}"
  by (induction cs arbitrary: acc) (auto simp: fold_setAdd)

lemma fold_rows_query:
  "set (fold (\<lambda>row. fold (\<lambda>col. fold (\<lambda>v acc. if P v then setAdd v acc else acc) (cell row col)) cs) rs acc) =
     set acc \<union> {v. P v \<and> (\<exists>row \<in> set rs. \<exists>col \<in> set cs. v \<in> set (cell row col))}"
  by (induction rs arbitrary: acc) (auto simp: fold_cols_query)

lemma set_getNearbyObjects:
  "set (getNearbyObjects g h r targetObjects) =
     {v. v \<in> set targetObjects \<and> v \<noteq> r \<and>
         (\<exists>(row, col) \<in> cellsOf g (h r). v \<in> set (grid g ! nat (row * cols g + col)))}"
  unfolding getNearbyObjects_def Let_def
  by (subst fold_rows_query) (auto simp: cellsOf_def)

lemma cell_index_in_range:
  assumes "(row, col) \<in> cellsOf g obj"
  shows "nat (row * cols g + col) < nat (rows g * cols g)"
proof -
  from assms have r: "0 \<le> row" "row \<le> rows g - 1" and c: "0 \<le> col" "col \<le> cols g - 1"
    by (auto simp: cellsOf_def)
  have "row * cols g \<le> (rows g - 1) * cols g"
    using r c by (intro mult_right_mono) auto
  then have "row * cols g + col < rows g * cols g"
    using c by (simp add: algebra_simps)
  moreover have "0 \<le> row * cols g + col"
    using r c by simp
  ultimately show ?thesis by simp
qed

lemma shared_cell:
  assumes cs: "0 < cellSize g"
    and a: "cellsOf g a \<noteq> {}" and b: "cellsOf g b \<noteq> {}"
    and ov: "checkAABBCollision a b"
  shows "cellsOf g a \<inter> cellsOf g b \<noteq> {}"
proof -
  let ?f = "\<lambda>v. \<lfloor>v / cellSize g\<rfloor>"
  have mono: "\<And>u v. u \<le> v \<Longrightarrow> ?f u \<le> ?f v"
    using cs by (intro floor_mono divide_right_mono) auto
  from ov have o: "?f (bLeft (getBounds b)) \<le> ?f (bRight (getBounds a))"
      "?f (bLeft (getBounds a)) \<le> ?f (bRight (getBounds b))"
      "?f (bTop (getBounds b)) \<le> ?f (bBottom (getBounds a))"
      "?f (bTop (getBounds a)) \<le> ?f (bBottom (getBounds b))"
    unfolding checkAABBCollision_iff by (auto intro: mono)
  let ?row = "max (max 0 (?f (bTop (getBounds a)))) (max 0 (?f (bTop (getBounds b))))"
  let ?col = "max (max 0 (?f (bLeft (getBounds a)))) (max 0 (?f (bLeft (getBounds b))))"
  from a b o have "(?row, ?col) \<in> cellsOf g a" "(?row, ?col) \<in> cellsOf g b"
    by (auto simp: cellsOf_def)
  then show ?thesis by blast
qed

lemma inGrid_rebuilt:
  assumes "inGrid (updateSpatialGrid h objs g) r"
  shows "r \<in> set objs \<and> active (h r) \<and> cls (h r) \<noteq> Foreign \<and> cellsOf g (h r) \<noteq> {}"
proof -
  from assms obtain cell where "cell \<in> set (grid (updateSpatialGrid h objs g))" "r \<in> set cell"
    by (auto simp: inGrid_def)
  then obtain i where i: "i < nat (rows g * cols g)"
      and r: "r \<in> set (grid (updateSpatialGrid h objs g) ! i)"
    by (metis in_set_conv_nth updateSpatialGrid_shape)
  from r show ?thesis
    unfolding updateSpatialGrid_cell [OF i] by auto
qed

lemma query_finds:
  assumes cs: "0 < cellSize g"
    and a: "inGrid (updateSpatialGrid h objs g) a"
    and b: "inGrid (updateSpatialGrid h objs g) b"
    and ne: "a \<noteq> b"
    and ov: "checkAABBCollision (h a) (h b)"
    and t: "b \<in> set targetObjects"
  shows "b \<in> set (getNearbyObjects (updateSpatialGrid h objs g) h a targetObjects)"
proof -
  let ?g = "updateSpatialGrid h objs g"
  note A = inGrid_rebuilt [OF a] and B = inGrid_rebuilt [OF b]
  from shared_cell [OF cs _ _ ov] A B
  obtain row col where ca: "(row, col) \<in> cellsOf g (h a)" and cb: "(row, col) \<in> cellsOf g (h b)"
    by auto
  have i: "nat (row * cols g + col) < nat (rows g * cols g)"
    by (rule cell_index_in_range [OF ca])
  have "b \<in> set (grid ?g ! nat (row * cols g + col))"
    unfolding updateSpatialGrid_cell [OF i] using B cb by auto
  moreover have "cellsOf ?g (h a) = cellsOf g (h a)"
    by (rule cellsOf_cong) (simp_all add: updateSpatialGrid_shape)
  ultimately show ?thesis
    unfolding set_getNearbyObjects using ca t ne
    by (auto simp: updateSpatialGrid_shape)
qed




lemma checkAABBCollision_sym: "checkAABBCollision a b = checkAABBCollision b a"
  by (auto simp: checkAABBCollision_iff)


text \<open>
  Claim C4. Let the grid be rebuilt from the registry (with a positive cell size), and let
  \<open>a\<close> and \<open>b\<close> be two different objects that both occupy at least one cell of it and whose
  boxes intersect. Then the query anchored at \<open>a\<close> returns \<open>b\<close> whenever \<open>b\<close> is among the
  targets the caller gives, and the query anchored at \<open>b\<close> returns \<open>a\<close> likewise. Objects
  that straddle a cell boundary are in every cell of their range, so the two ranges share a
  cell.
\<close>

theorem C4_grid_query_complete:
  assumes "0 < cellSize g0"
    and "g = updateSpatialGrid h objs g0"
    and "inGrid g a" and "inGrid g b" and "a \<noteq> b"
    and "checkAABBCollision (h a) (h b)"
  shows "(b \<in> set targetsA \<longrightarrow> b \<in> set (getNearbyObjects g h a targetsA)) \<and>
         (a \<in> set targetsB \<longrightarrow> a \<in> set (getNearbyObjects g h b targetsB))"
proof -
  have ba: "checkAABBCollision (h b) (h a)"
    using assms(6) by (simp add: checkAABBCollision_sym)
  show ?thesis
    using assms ba query_finds [of g0 h objs a b targetsA] query_finds [of g0 h objs b a targetsB]
    by auto
qed


text \<open>The rebuilt grid of the two objects: the enemy is in both columns of the first row.\<close>

lemma wgrid_eval: "grid wgrid = [[0], [0, 1], [], []]" "cols wgrid = 2" "rows wgrid = 2" "cellSize wgrid = 64"
  by (simp_all add: wgrid_def updateSpatialGrid_def newSpatialGrid_def clear_def wstore_def newEnemy_def newBullet_def newGameObject_def gridInsert_def getBounds_def cellPush_def Let_def upto.simps eval_nat_numeral)

theorem C4_witness:
  "0 < cellSize (newSpatialGrid 128 128 64) \<and>
   inGrid wgrid 0 \<and> inGrid wgrid 1 \<and>
   checkAABBCollision (wstore 0) (wstore 1) \<and>
   1 \<in> set (getNearbyObjects wgrid wstore 0 [1]) \<and>
   0 \<in> set (getNearbyObjects wgrid wstore 1 [0])"
proof -
  have cs: "0 < cellSize (newSpatialGrid 128 128 64)"
    by (simp add: newSpatialGrid_def clear_def)
  have a: "inGrid wgrid 0" and b: "inGrid wgrid 1"
    by (simp_all add: inGrid_def wgrid_eval)
  have ov: "checkAABBCollision (wstore 0) (wstore 1)"
    by (simp add: checkAABBCollision_def getBounds_def wstore_def newEnemy_def newBullet_def newGameObject_def)
  show ?thesis
    using cs a b ov C4_grid_query_complete [OF cs wgrid_def a b _ ov, of "[1]" "[0]"]
    by simp
qed



section \<open>The pickup test\<close>

lemma pickup_pair_checkCollision:
  assumes "cls a = Player" "active a" "cls b = WeaponPickup" "active b"
  shows "checkCollision a b \<longleftrightarrow> distanceTo a b < pickupReach a b"
  using assms
  by (simp add: checkCollision_def isWeaponPickupPair_def checkCircleCollision_def
        distanceTo_def pickupReach_def Let_def)

lemma handleCollision_player_pickup:
  assumes p: "cls (heap s p) = Player"
    and k: "cls (heap s k) = WeaponPickup" "active (heap s k)"
  shows "handleCollision E p k s =
     s\<lparr> heap := (heap s)
           (p := (heap s p)\<lparr>weaponManager :=
                   map_option (WeaponManager_upgradeWeapon None) (weaponManager (heap s p))\<rparr>,
            k := destroy (heap s k)),
         trace := trace s @ [OnCollision p k] @
                    (case weaponManager (heap s p) of None \<Rightarrow> []
                     | Some wm \<Rightarrow> [SetWeaponLevel (weaponLevel (WeaponManager_upgradeWeapon None wm))]) @
                    [OnCollision k p] \<rparr>"
proof -
  have ne: "p \<noteq> k" using p k by auto
  show ?thesis
  proof (cases "weaponManager (heap s p)")
    case None
    have same: "(heap s p)\<lparr>weaponManager := None\<rparr> = heap s p"
      using None by simp
    show ?thesis
      using p k None ne
      by (simp add: handleCollision_def isWeaponPickupPair_def invokeHooks_def hasOnCollision_def
          onCollision_def emit_def Player_onCollision_def modify_def same
          GameObject_destroy_def destroy_def WeaponPickup_onCollision_def Let_def)
  next
    case (Some wm)
    show ?thesis
      using p k Some ne
      by (simp add: handleCollision_def isWeaponPickupPair_def invokeHooks_def hasOnCollision_def
          onCollision_def emit_def Player_onCollision_def Player_upgradeWeapon_def modify_def
          GameObject_destroy_def destroy_def WeaponPickup_onCollision_def Let_def fun_upd_twist)
  qed
qed

lemma testPickup_player_pickup:
  assumes "cls (heap s p) = Player" and "active (heap s p)"
    and "cls (heap s k) = WeaponPickup" and "active (heap s k)"
  shows "(if distanceTo (heap s p) (heap s k) \<le> 30 \<or>
             distanceTo (heap s p) (heap s k) < pickupReach (heap s p) (heap s k)
          then testPickup E p k s =
                 countCollision (countCheck s)
                   \<lparr> heap := (heap s)
                       (p := (heap s p)\<lparr>weaponManager :=
                          map_option (WeaponManager_upgradeWeapon None) (weaponManager (heap s p))\<rparr>,
                        k := destroy (heap s k)),
                     trace := trace s @ [OnCollision p k] @
                       (case weaponManager (heap s p) of None \<Rightarrow> []
                        | Some wm \<Rightarrow>
                            [SetWeaponLevel (weaponLevel (WeaponManager_upgradeWeapon None wm))]) @
                       [OnCollision k p] \<rparr>
          else testPickup E p k s = countCheck s)"
proof -
  have cc: "checkCollision (heap (countCheck s) p) (heap (countCheck s) k) \<longleftrightarrow>
      distanceTo (heap s p) (heap s k) < pickupReach (heap s p) (heap s k)"
    using assms pickup_pair_checkCollision [of "heap s p" "heap s k"]
    by (simp add: countCheck_def)
  have hc: "handleCollision E p k (countCheck s) =
      (countCheck s)\<lparr> heap := (heap s)
           (p := (heap s p)\<lparr>weaponManager :=
                   map_option (WeaponManager_upgradeWeapon None) (weaponManager (heap s p))\<rparr>,
            k := destroy (heap s k)),
         trace := trace s @ [OnCollision p k] @
                    (case weaponManager (heap s p) of None \<Rightarrow> []
                     | Some wm \<Rightarrow> [SetWeaponLevel (weaponLevel (WeaponManager_upgradeWeapon None wm))]) @
                    [OnCollision k p] \<rparr>"
    using assms handleCollision_player_pickup [of "countCheck s" p k E]
    by (simp add: countCheck_def)
  have cnt: "\<And>w f g. countCollision (w\<lparr>heap := f, trace := g\<rparr>) = (countCollision w)\<lparr>heap := f, trace := g\<rparr>"
    by (simp add: countCollision_def)
  show ?thesis
    unfolding testPickup_def Let_def cc hc
    by (auto simp: countCheck_def cnt)
qed


lemma distanceTo_same_y: "obj_y a = obj_y b \<Longrightarrow> distanceTo a b = \<bar>obj_x a - obj_x b\<bar>"
  by (simp add: distanceTo_def Let_def)

lemma pickupScene_eval:
  "heap (pickupScene px) 0 = initWeaponSystem (newPlayer ''p'' 200 500)"
  "heap (pickupScene px) (Suc 0) =
     (newGameObject ''obj'' px 500)\<lparr>cls := WeaponPickup, width := 16, height := 16, vx := 0, vy := - 30\<rparr>"
  "trace (pickupScene px) = []"
  "collisionsPerFrame (pickupScene px) = 0"
  "gameObjects (pickupScene px) = [0, 1]"
  by (simp_all add: pickupScene_def spawn_def addGameObject_def newWorld_def newWeaponPickup_def
        basePlatform_def Let_def)

lemma pickupScene_objects:
  "cls (heap (pickupScene px) 0) = Player" "active (heap (pickupScene px) 0)"
  "cls (heap (pickupScene px) (Suc 0)) = WeaponPickup" "active (heap (pickupScene px) (Suc 0))"
  "distanceTo (heap (pickupScene px) 0) (heap (pickupScene px) (Suc 0)) = \<bar>200 - px\<bar>"
  "max (width (heap (pickupScene px) 0)) (height (heap (pickupScene px) 0)) / 2 = 10"
  "max (width (heap (pickupScene px) (Suc 0))) (height (heap (pickupScene px) (Suc 0))) / 2 = 8"
  "pickupReach (heap (pickupScene px) 0) (heap (pickupScene px) (Suc 0)) = 28"
  "weaponManager (heap (pickupScene px) 0) = Some newWeaponManager"
  by (simp_all add: pickupScene_eval distanceTo_same_y pickupReach_def initWeaponSystem_def
        newPlayer_def newGameObject_def)

lemma upgrade_first:
  "WeaponManager_upgradeWeapon None newWeaponManager =
     \<lparr> currentWeapon = newWeapon rapid, weaponLevel = 1, maxLevel = 3, currentWeaponIndex = 1 \<rparr>"
  by (simp add: WeaponManager_upgradeWeapon_def newWeaponManager_def weaponProgression_def Let_def)


text \<open>
  Claim C1, as the code has it. For an active player and an active weapon pickup at
  distance \<open>d\<close>, the body of the pickup loop counts a collision and dispatches it exactly
  when \<open>d \<le> 30\<close> or \<open>d < r_player + r_pickup + 10\<close>, where each radius is half of the larger
  side and 10 is the margin added to the radius of the pickup; the box test plays no part.
  The dispatch destroys the pickup and upgrades the weapon manager of the player exactly
  once: the hook of the player does both, and the hook of the pickup, which runs second,
  finds the pickup inactive. Otherwise only the check is counted.
\<close>

theorem C1_pickup_proximity:
  assumes "cls (heap s p) = Player" and "active (heap s p)"
    and "cls (heap s k) = WeaponPickup" and "active (heap s k)"
  shows "(if distanceTo (heap s p) (heap s k) \<le> 30 \<or>
             distanceTo (heap s p) (heap s k) < pickupReach (heap s p) (heap s k)
          then testPickup E p k s =
                 countCollision (countCheck s)
                   \<lparr> heap := (heap s)
                       (p := (heap s p)\<lparr>weaponManager :=
                          map_option (WeaponManager_upgradeWeapon None) (weaponManager (heap s p))\<rparr>,
                        k := destroy (heap s k)),
                     trace := trace s @ [OnCollision p k] @
                       (case weaponManager (heap s p) of None \<Rightarrow> []
                        | Some wm \<Rightarrow>
                            [SetWeaponLevel (weaponLevel (WeaponManager_upgradeWeapon None wm))]) @
                       [OnCollision k p] \<rparr>
          else testPickup E p k s = countCheck s)"
  using assms by (rule testPickup_player_pickup)


text \<open>
  At distance 15 the pickup is taken: it is destroyed, the weapon manager has advanced once
  from \<open>basic\<close> to \<open>rapid\<close>, and the trace shows the two hooks around the single upgrade.
  At distance 31 nothing but the check happens.
\<close>

theorem C1_witness:
  "cls (heap (pickupScene 215) 0) = Player \<and> active (heap (pickupScene 215) 0) \<and>
   cls (heap (pickupScene 215) 1) = WeaponPickup \<and> active (heap (pickupScene 215) 1) \<and>
   distanceTo (heap (pickupScene 215) 0) (heap (pickupScene 215) 1) = 15 \<and>
   pickupReach (heap (pickupScene 215) 0) (heap (pickupScene 215) 1) = 28 \<and>
   collisionsPerFrame (testPickup basePlatform 0 1 (pickupScene 215)) = 1 \<and>
   shouldDestroy (heap (testPickup basePlatform 0 1 (pickupScene 215)) 1) \<and>
   \<not> active (heap (testPickup basePlatform 0 1 (pickupScene 215)) 1) \<and>
   weaponManager (heap (testPickup basePlatform 0 1 (pickupScene 215)) 0) =
     Some (WeaponManager_upgradeWeapon None newWeaponManager) \<and>
   trace (testPickup basePlatform 0 1 (pickupScene 215)) =
     [OnCollision 0 1, SetWeaponLevel 1, OnCollision 1 0] \<and>
   distanceTo (heap (pickupScene 231) 0) (heap (pickupScene 231) 1) = 31 \<and>
   testPickup basePlatform 0 1 (pickupScene 231) = countCheck (pickupScene 231)"
  using C1_pickup_proximity [of "pickupScene 215" 0 1 basePlatform]
    C1_pickup_proximity [of "pickupScene 231" 0 1 basePlatform]
  by (simp add: pickupScene_objects pickupScene_eval(3,4) upgrade_first countCollision_def
        countCheck_def destroy_def)


text \<open>
  The claim as stated fails at distance 30 with radii 10 and 8: 30 is more than
  10 + 8 + 10 = 28, yet the first test of the loop, \<open>distance \<le> 30\<close>, accepts the pair, the
  collision is counted and the pickup is destroyed.
\<close>

theorem C1_counterexample:
  "active (heap (pickupScene 230) 0) \<and> cls (heap (pickupScene 230) 0) = Player \<and>
   active (heap (pickupScene 230) 1) \<and> cls (heap (pickupScene 230) 1) = WeaponPickup \<and>
   distanceTo (heap (pickupScene 230) 0) (heap (pickupScene 230) 1) = 30 \<and>
   max (width (heap (pickupScene 230) 0)) (height (heap (pickupScene 230) 0)) / 2 = 10 \<and>
   max (width (heap (pickupScene 230) 1)) (height (heap (pickupScene 230) 1)) / 2 = 8 \<and>
   \<not> ((30::real) \<le> 10 + 8 + 10) \<and>
   collisionsPerFrame (testPickup basePlatform 0 1 (pickupScene 230)) =
     collisionsPerFrame (pickupScene 230) + 1 \<and>
   shouldDestroy (heap (testPickup basePlatform 0 1 (pickupScene 230)) 1) \<and>
   trace (testPickup basePlatform 0 1 (pickupScene 230)) =
     [OnCollision 0 1, SetWeaponLevel 1, OnCollision 1 0]"
  using testPickup_player_pickup [of "pickupScene 230" 0 1 basePlatform]
  by (simp add: pickupScene_objects pickupScene_eval(3,4) upgrade_first countCollision_def
        countCheck_def destroy_def)



section \<open>The collision hooks within a frame\<close>

lemma sameEntity_refl [simp]: "sameEntity obj obj"
  by (simp add: sameEntity_def)

lemma sameEntity_trans: "sameEntity a b \<Longrightarrow> sameEntity b c \<Longrightarrow> sameEntity a c"
  by (auto simp: sameEntity_def)

lemma frameStable_refl [simp]: "frameStable s s"
  by (simp add: frameStable_def)

lemma frameStable_trans: "frameStable s t \<Longrightarrow> frameStable t u \<Longrightarrow> frameStable s u"
  unfolding frameStable_def
  by (meson order_trans prefix_order.order_trans sameEntity_trans less_le_trans)

lemma quiet_refl [simp]: "quiet s s"
  by (simp add: quiet_def)

lemma quiet_trans: "quiet s t \<Longrightarrow> quiet t u \<Longrightarrow> quiet s u"
  unfolding quiet_def using frameStable_trans by auto

lemma quiet_modify:
  assumes "sameEntity (heap s r) (f (heap s r))"
  shows "quiet s (modify r f s)"
  using assms by (simp add: quiet_def frameStable_def modify_def hookCalls_def)

lemma quiet_emit: "\<not> isHookCall e \<Longrightarrow> quiet s (emit e s)"
  by (simp add: quiet_def frameStable_def emit_def hookCalls_def)

lemma quiet_destroy: "quiet s (GameObject_destroy r s)"
  unfolding GameObject_destroy_def
  by (rule quiet_modify) (simp add: sameEntity_def destroy_def)

lemma quiet_Player_upgradeWeapon: "quiet s (Player_upgradeWeapon r wt s)"
proof (cases "weaponManager (heap s r)")
  case None
  then show ?thesis by (simp add: Player_upgradeWeapon_def)
next
  case (Some wm)
  have "quiet s (modify r (\<lambda>obj. obj\<lparr>weaponManager := Some (WeaponManager_upgradeWeapon wt wm)\<rparr>) s)"
    by (rule quiet_modify) (simp add: sameEntity_def)
  then show ?thesis
    using Some quiet_emit quiet_trans
    by (fastforce simp: Player_upgradeWeapon_def Let_def)
qed

lemma quiet_Player_takeDamage: "quiet s (Player_takeDamage r d s)"
proof -
  let ?s1 = "modify r (\<lambda>obj. obj\<lparr>health := health obj - d\<rparr>) s"
  let ?s2 = "emit (LoseLife d) ?s1"
  have 1: "quiet s ?s1" by (rule quiet_modify) (simp add: sameEntity_def)
  have 2: "quiet ?s1 ?s2" by (rule quiet_emit) simp
  have 3: "quiet ?s2 (Player_onDeath r ?s2)"
    unfolding Player_onDeath_def by (rule quiet_modify) (simp add: sameEntity_def)
  have 4: "quiet ?s2 (modify r (\<lambda>obj. obj\<lparr>invulnerable := True,
                 invulnerabilityTime := invulnerabilityDuration obj\<rparr>) ?s2)"
    by (rule quiet_modify) (simp add: sameEntity_def)
  show ?thesis
    unfolding Player_takeDamage_def Let_def
    using quiet_trans [OF quiet_trans [OF 1 2] 3] quiet_trans [OF quiet_trans [OF 1 2] 4]
    by simp
qed

lemma quiet_Player_onCollision: "quiet s (Player_onCollision r q s)"
  unfolding Player_onCollision_def Let_def
  using quiet_trans [OF quiet_Player_upgradeWeapon quiet_destroy]
        quiet_trans [OF quiet_Player_takeDamage quiet_destroy]
        quiet_Player_takeDamage quiet_destroy
  by simp

lemma quiet_newWeaponPickup:
  "quiet s (addGameObject (fst (newWeaponPickup E px py s)) (snd (newWeaponPickup E px py s)))"
  by (simp add: quiet_def frameStable_def newWeaponPickup_def addGameObject_def Let_def hookCalls_def)

lemma quiet_Enemy_checkWeaponDrop: "quiet s (Enemy_checkWeaponDrop E r s)"
proof -
  let ?s1 = "s\<lparr>randomsUsed := randomsUsed s + 1\<rparr>"
  have 1: "quiet s ?s1"
    by (simp add: quiet_def frameStable_def hookCalls_def)
  have 2: "quiet ?s1 (addGameObject (fst (newWeaponPickup E px py ?s1)) (snd (newWeaponPickup E px py ?s1)))" for px py
    by (rule quiet_newWeaponPickup)
  show ?thesis
    unfolding Enemy_checkWeaponDrop_def Let_def
    using 1 quiet_trans [OF 1 2]
    by (simp add: case_prod_beta)
qed

lemma quiet_Enemy_onDeath: "quiet s (Enemy_onDeath E r s)"
  unfolding Enemy_onDeath_def Let_def
  by (rule quiet_trans [OF quiet_trans [OF quiet_emit quiet_Enemy_checkWeaponDrop] quiet_destroy]) simp

lemma quiet_Enemy_takeDamage: "quiet s (Enemy_takeDamage E r d s)"
proof -
  have 1: "quiet s (modify r (\<lambda>obj. obj\<lparr>health := health obj - d\<rparr>) s)"
    by (rule quiet_modify) (simp add: sameEntity_def)
  show ?thesis
    unfolding Enemy_takeDamage_def Let_def
    using 1 quiet_trans [OF 1 quiet_Enemy_onDeath] by simp
qed

lemma quiet_Enemy_onCollision: "quiet s (Enemy_onCollision E r q s)"
  unfolding Enemy_onCollision_def Let_def
  using quiet_trans [OF quiet_Enemy_takeDamage quiet_destroy] quiet_Enemy_takeDamage
  by simp

lemma quiet_Bullet_onCollision: "quiet s (Bullet_onCollision E r q s)"
proof -
  have 1: "quiet t (modify r (\<lambda>obj. obj\<lparr>pierceCount := pierceCount obj + 1\<rparr>) t)" for t
    by (rule quiet_modify) (simp add: sameEntity_def)
  show ?thesis
    unfolding Bullet_onCollision_def Let_def
    using quiet_trans [OF quiet_Enemy_takeDamage 1]
          quiet_trans [OF quiet_Enemy_takeDamage quiet_destroy]
          quiet_trans [OF quiet_Player_takeDamage quiet_destroy]
    by simp
qed

lemma quiet_WeaponPickup_onCollision: "quiet s (WeaponPickup_onCollision r q s)"
  unfolding WeaponPickup_onCollision_def Let_def
  using quiet_trans [OF quiet_Player_upgradeWeapon quiet_destroy]
  by simp


lemma onCollision_quiet: "quiet (emit (OnCollision x y) s) (onCollision E x y s)"
  unfolding onCollision_def Let_def
  using quiet_Player_onCollision quiet_Enemy_onCollision quiet_Bullet_onCollision
    quiet_WeaponPickup_onCollision
  by (simp split: cls.split)

lemma frameStable_emit: "frameStable s (emit e s)"
  by (simp add: frameStable_def emit_def)

lemma onCollision_frameStable: "frameStable s (onCollision E x y s)"
  using onCollision_quiet [of x y s E] frameStable_emit [of s "OnCollision x y"] frameStable_trans
  by (auto simp: quiet_def)

lemma onCollision_fields:
  "collisionPairs (onCollision E x y s) = collisionPairs s"
  "collisionsPerFrame (onCollision E x y s) = collisionsPerFrame s"
  "checksPerFrame (onCollision E x y s) = checksPerFrame s"
  "debugMode (onCollision E x y s) = debugMode s"
  "spatialGrid (onCollision E x y s) = spatialGrid s"
  "hookCalls (onCollision E x y s) = hookCalls s @ [OnCollision x y]"
  using onCollision_quiet [of x y s E]
  by (simp_all add: quiet_def emit_def hookCalls_def)

lemma frameStable_cls: "frameStable s t \<Longrightarrow> r < nextRef s \<Longrightarrow> cls (heap t r) = cls (heap s r)"
  by (simp add: frameStable_def sameEntity_def)

lemma invokeHooks_frameStable: "frameStable s (invokeHooks E a b s)"
proof -
  let ?s1 = "if hasOnCollision (heap s a) then onCollision E a b s else s"
  have 1: "frameStable s ?s1"
    by (simp add: onCollision_frameStable)
  have 2: "frameStable ?s1 (if hasOnCollision (heap ?s1 b) then onCollision E b a ?s1 else ?s1)"
    by (simp add: onCollision_frameStable)
  show ?thesis
    unfolding invokeHooks_def Let_def by (rule frameStable_trans [OF 1 2])
qed

lemma invokeHooks_fields:
  "collisionPairs (invokeHooks E a b s) = collisionPairs s"
  "collisionsPerFrame (invokeHooks E a b s) = collisionsPerFrame s"
  "checksPerFrame (invokeHooks E a b s) = checksPerFrame s"
  "debugMode (invokeHooks E a b s) = debugMode s"
  "spatialGrid (invokeHooks E a b s) = spatialGrid s"
  by (simp_all add: invokeHooks_def Let_def onCollision_fields)

lemma invokeHooks_hookCalls:
  assumes "b < nextRef s"
  shows "hookCalls (invokeHooks E a b s) =
     hookCalls s @ (if hasOnCollision (heap s a) then [OnCollision a b] else []) @
       (if hasOnCollision (heap s b) then [OnCollision b a] else [])"
proof -
  have "cls (heap (onCollision E a b s) b) = cls (heap s b)"
    using frameStable_cls [OF onCollision_frameStable assms] .
  then show ?thesis
    by (simp add: invokeHooks_def Let_def onCollision_fields hasOnCollision_def)
qed

lemma invokeHooks_eq:
  assumes "b < nextRef s"
  shows "invokeHooks E a b s =
     (let s1 = (if hasOnCollision (heap s a) then onCollision E a b s else s)
      in if hasOnCollision (heap s b) then onCollision E b a s1 else s1)"
proof -
  have "cls (heap (onCollision E a b s) b) = cls (heap s b)"
    using frameStable_cls [OF onCollision_frameStable assms] .
  then show ?thesis
    by (simp add: invokeHooks_def Let_def hasOnCollision_def)
qed

lemma handleCollision_frameStable: "frameStable s (handleCollision E a b s)"
proof -
  have "frameStable s (s\<lparr>collisionPairs := X\<rparr>)" for X
    by (simp add: frameStable_def)
  then have "frameStable s (invokeHooks E a b (s\<lparr>collisionPairs := X\<rparr>))" for X
    using invokeHooks_frameStable frameStable_trans by blast
  then show ?thesis
    unfolding handleCollision_def Let_def
    by (simp add: invokeHooks_frameStable)
qed

lemma handleCollision_fields:
  "collisionPairs s \<subseteq> collisionPairs (handleCollision E a b s)"
  "collisionsPerFrame (handleCollision E a b s) = collisionsPerFrame s"
  "checksPerFrame (handleCollision E a b s) = checksPerFrame s"
  "debugMode (handleCollision E a b s) = debugMode s"
  "spatialGrid (handleCollision E a b s) = spatialGrid s"
  by (auto simp: handleCollision_def Let_def invokeHooks_fields)

lemma handleCollision_records:
  "\<not> isWeaponPickupPair (heap s a) (heap s b) \<Longrightarrow>
   pairKey E (heap s a) (heap s b) \<in> collisionPairs (handleCollision E a b s)"
  by (auto simp: handleCollision_def Let_def invokeHooks_fields)

lemma handleCollision_noop:
  "\<not> isWeaponPickupPair (heap s a) (heap s b) \<Longrightarrow>
   pairKey E (heap s a) (heap s b) \<in> collisionPairs s \<Longrightarrow> handleCollision E a b s = s"
  by (simp add: handleCollision_def)

lemma frameStable_pair:
  assumes "frameStable s t" "a < nextRef s" "b < nextRef s"
  shows "pairKey E (heap t a) (heap t b) = pairKey E (heap s a) (heap s b)"
    and "isWeaponPickupPair (heap t a) (heap t b) = isWeaponPickupPair (heap s a) (heap s b)"
  using assms
  by (simp_all add: frameStable_def sameEntity_def pairKey_def idOrFallback_def isWeaponPickupPair_def)

lemma resolveAll_props:
  "frameStable s (resolveAll E ps s) \<and> collisionPairs s \<subseteq> collisionPairs (resolveAll E ps s)"
proof (induction ps arbitrary: s)
  case Nil
  then show ?case by (simp add: resolveAll_def)
next
  case (Cons p ps)
  obtain a b where p: "p = (a, b)" by (cases p)
  have step: "resolveAll E (p # ps) s = resolveAll E ps (handleCollision E a b s)"
    by (simp add: resolveAll_def p)
  show ?case
    unfolding step
    using Cons.IH [of "handleCollision E a b s"] handleCollision_frameStable [of s E a b]
      handleCollision_fields(1) [of s E a b] frameStable_trans
    by blast
qed


lemma handleCollision_collisionPairs:
  "collisionPairs (handleCollision E a b s) =
     (if isWeaponPickupPair (heap s a) (heap s b) then collisionPairs s
      else insert (pairKey E (heap s a) (heap s b)) (collisionPairs s))"
  by (auto simp: handleCollision_def Let_def invokeHooks_fields)

lemma handleCollision_fired:
  assumes "isWeaponPickupPair (heap s a) (heap s b) \<or>
           pairKey E (heap s a) (heap s b) \<notin> collisionPairs s"
  shows "handleCollision E a b s =
     invokeHooks E a b
       (if isWeaponPickupPair (heap s a) (heap s b) then s
        else s\<lparr>collisionPairs := insert (pairKey E (heap s a) (heap s b)) (collisionPairs s)\<rparr>)"
  using assms by (auto simp: handleCollision_def Let_def)

lemma handleCollision_hookCalls:
  assumes "b < nextRef s"
    and "isWeaponPickupPair (heap s a) (heap s b) \<or>
         pairKey E (heap s a) (heap s b) \<notin> collisionPairs s"
  shows "hookCalls (handleCollision E a b s) =
     hookCalls s @ (if hasOnCollision (heap s a) then [OnCollision a b] else []) @
       (if hasOnCollision (heap s b) then [OnCollision b a] else [])"
proof -
  let ?s0 = "if isWeaponPickupPair (heap s a) (heap s b) then s
        else s\<lparr>collisionPairs := insert (pairKey E (heap s a) (heap s b)) (collisionPairs s)\<rparr>"
  have "b < nextRef ?s0" "heap ?s0 = heap s" "hookCalls ?s0 = hookCalls s"
    using assms(1) by (simp_all add: hookCalls_def)
  then show ?thesis
    unfolding handleCollision_fired [OF assms(2)]
    using invokeHooks_hookCalls [of b ?s0 E a] by simp
qed


text \<open>
  Claim C9. When the dispatcher resolves a pair that is not deduplicated (a player with a
  weapon pickup, or a pair whose key is not yet recorded), it invokes \<open>a.onCollision(b)\<close>
  and then \<open>b.onCollision(a)\<close>, in this order, each only if the object has the method; a
  side without the method contributes no call and no change. \<open>b\<close> is an existing object.
\<close>

theorem C9_hooks_in_order:
  assumes "b < nextRef s"
    and "isWeaponPickupPair (heap s a) (heap s b) \<or>
         pairKey E (heap s a) (heap s b) \<notin> collisionPairs s"
  shows "hookCalls (handleCollision E a b s) =
           hookCalls s @ (if hasOnCollision (heap s a) then [OnCollision a b] else []) @
             (if hasOnCollision (heap s b) then [OnCollision b a] else []) \<and>
         handleCollision E a b s =
           (let s0 = (if isWeaponPickupPair (heap s a) (heap s b) then s
                      else s\<lparr>collisionPairs :=
                              insert (pairKey E (heap s a) (heap s b)) (collisionPairs s)\<rparr>);
                s1 = (if hasOnCollision (heap s a) then onCollision E a b s0 else s0)
            in if hasOnCollision (heap s b) then onCollision E b a s1 else s1)"
proof -
  let ?s0 = "if isWeaponPickupPair (heap s a) (heap s b) then s
        else s\<lparr>collisionPairs := insert (pairKey E (heap s a) (heap s b)) (collisionPairs s)\<rparr>"
  have b: "b < nextRef ?s0" and h: "heap ?s0 = heap s"
    using assms(1) by simp_all
  have "handleCollision E a b s =
      (let s1 = (if hasOnCollision (heap s a) then onCollision E a b ?s0 else ?s0)
       in if hasOnCollision (heap s b) then onCollision E b a s1 else s1)"
    unfolding handleCollision_fired [OF assms(2)] invokeHooks_eq [OF b] h ..
  then show ?thesis
    using handleCollision_hookCalls [OF assms] by (simp add: Let_def)
qed

lemma duelScene_eval:
  "nextRef duelScene = 3" "collisionPairs duelScene = {}" "trace duelScene = []"
  "heap duelScene 0 = initWeaponSystem (newPlayer ''p'' 200 500)"
  "heap duelScene (Suc 0) = newEnemy ''e'' 200 495"
  "heap duelScene 2 = (newGameObject ''f'' 200 500)\<lparr>cls := Foreign\<rparr>"
  by (simp_all add: duelScene_def spawn_def addGameObject_def newWorld_def)

lemma duelScene_objects:
  "cls (heap duelScene 0) = Player" "cls (heap duelScene (Suc 0)) = Enemy"
  "cls (heap duelScene 2) = Foreign"
  "obj_id (heap duelScene 0) = ''p''" "obj_id (heap duelScene (Suc 0)) = ''e''"
  "obj_id (heap duelScene 2) = ''f''"
  by (simp_all add: duelScene_eval initWeaponSystem_def newPlayer_def newEnemy_def newGameObject_def)


text \<open>
  Player against enemy: both hooks, the player's first. Player against the object without
  a hook: the player's hook only.
\<close>

theorem C9_witness:
  "1 < nextRef duelScene \<and> 2 < nextRef duelScene \<and>
   pairKey basePlatform (heap duelScene 0) (heap duelScene 1) \<notin> collisionPairs duelScene \<and>
   pairKey basePlatform (heap duelScene 0) (heap duelScene 2) \<notin> collisionPairs duelScene \<and>
   hasOnCollision (heap duelScene 0) \<and> hasOnCollision (heap duelScene 1) \<and>
   \<not> hasOnCollision (heap duelScene 2) \<and>
   hookCalls (handleCollision basePlatform 0 1 duelScene) = [OnCollision 0 1, OnCollision 1 0] \<and>
   hookCalls (handleCollision basePlatform 0 2 duelScene) = [OnCollision 0 2]"
proof -
  have n: "1 < nextRef duelScene" "2 < nextRef duelScene"
    by (simp_all add: duelScene_eval)
  have k: "isWeaponPickupPair (heap duelScene 0) (heap duelScene 1) \<or>
           pairKey basePlatform (heap duelScene 0) (heap duelScene 1) \<notin> collisionPairs duelScene"
      "isWeaponPickupPair (heap duelScene 0) (heap duelScene 2) \<or>
           pairKey basePlatform (heap duelScene 0) (heap duelScene 2) \<notin> collisionPairs duelScene"
    by (simp_all add: duelScene_eval)
  have h: "hasOnCollision (heap duelScene 0)" "hasOnCollision (heap duelScene 1)"
      "\<not> hasOnCollision (heap duelScene 2)"
    by (simp_all add: hasOnCollision_def duelScene_objects)
  have e: "hookCalls duelScene = []"
    by (simp add: hookCalls_def duelScene_eval)
  show ?thesis
    using n k h C9_hooks_in_order [OF n(1) k(1), THEN conjunct1]
      C9_hooks_in_order [OF n(2) k(2), THEN conjunct1]
    by (simp add: e duelScene_eval(2))
qed


subsection \<open>Every category presents a pair in one order\<close>

lemma dispatchOrder_asym: "dispatchOrder p q \<Longrightarrow> \<not> dispatchOrder q p"
  by (auto simp: dispatchOrder_def)

lemma frameStable_dispatchOrder:
  "frameStable s t \<Longrightarrow> a < nextRef s \<Longrightarrow> b < nextRef s \<Longrightarrow>
   dispatchOrder (heap t a) (heap t b) = dispatchOrder (heap s a) (heap s b)"
  by (simp add: frameStable_def sameEntity_def dispatchOrder_def)

lemma invokeHooks_appends:
  "\<exists>l. hookCalls (invokeHooks E u v s) = hookCalls s @ l \<and>
       l \<in> {[], [OnCollision u v], [OnCollision v u], [OnCollision u v, OnCollision v u]}"
  by (simp add: invokeHooks_def Let_def onCollision_fields)

lemma handleCollision_appends:
  "\<exists>l. hookCalls (handleCollision E u v s) = hookCalls s @ l \<and>
       l \<in> {[], [OnCollision u v], [OnCollision v u], [OnCollision u v, OnCollision v u]}"
proof -
  have "hookCalls (s\<lparr>collisionPairs := X\<rparr>) = hookCalls s" for X
    by (simp add: hookCalls_def)
  then show ?thesis
    using invokeHooks_appends [of E u v s] invokeHooks_appends [of E u v "s\<lparr>collisionPairs := X\<rparr>" for X]
    by (simp add: handleCollision_def Let_def)
qed

lemma handleCollision_firedOnce:
  assumes x: "x < nextRef s0" and y: "y < nextRef s0"
    and np: "\<not> isWeaponPickupPair (heap s0 x) (heap s0 y)"
    and inv: "firedOnce E s0 x y t"
    and ne: "(u, v) \<noteq> (y, x)"
  shows "firedOnce E s0 x y (handleCollision E u v t)"
proof -
  let ?t' = "handleCollision E u v t"
  let ?k = "pairKey E (heap s0 x) (heap s0 y)"
  have st: "frameStable s0 t"
    using inv by (simp add: firedOnce_def)
  have st': "frameStable s0 ?t'"
    using st handleCollision_frameStable frameStable_trans by blast
  obtain l where l: "hookCalls ?t' = hookCalls t @ l"
      "l \<in> {[], [OnCollision u v], [OnCollision v u], [OnCollision u v, OnCollision v u]}"
    using handleCollision_appends by blast
  have sub: "collisionPairs t \<subseteq> collisionPairs ?t'"
    by (rule handleCollision_fields(1))
  show ?thesis
  proof (cases "(u, v) = (x, y)")
    case True
    then have uv: "u = x" "v = y" and xy: "x \<noteq> y"
      using ne by auto
    have k: "pairKey E (heap t x) (heap t y) = ?k"
        and p: "\<not> isWeaponPickupPair (heap t x) (heap t y)"
      using frameStable_pair [OF st x y] np by simp_all
    show ?thesis
    proof (cases "?k \<in> collisionPairs t")
      case True
      then have "?t' = t"
        using handleCollision_noop [of t x y E] k p uv by simp
      then show ?thesis using inv by simp
    next
      case False
      then have base: "count_list (hookCalls t) (OnCollision x y) = count_list (hookCalls s0) (OnCollision x y)"
          "count_list (hookCalls t) (OnCollision y x) = count_list (hookCalls s0) (OnCollision y x)"
        using inv by (simp_all add: firedOnce_def)
      have rec: "?k \<in> collisionPairs ?t'"
        using handleCollision_records [of t x y E] k p uv by simp
      have "count_list l (OnCollision x y) \<le> 1" "count_list l (OnCollision y x) \<le> 1"
        using l(2) uv xy by auto
      then show ?thesis
        using st' rec base l(1) by (simp add: firedOnce_def)
    qed
  next
    case False
    then have "count_list l (OnCollision x y) = 0" "count_list l (OnCollision y x) = 0"
      using l(2) ne by auto
    then have same: "count_list (hookCalls ?t') (OnCollision x y) = count_list (hookCalls t) (OnCollision x y)"
        "count_list (hookCalls ?t') (OnCollision y x) = count_list (hookCalls t) (OnCollision y x)"
      using l(1) by simp_all
    have "?k \<notin> collisionPairs ?t' \<Longrightarrow> ?k \<notin> collisionPairs t"
      using sub by blast
    then show ?thesis
      using inv st' same unfolding firedOnce_def by auto
  qed
qed

lemma firedOnce_counters:
  "firedOnce E s0 x y t \<Longrightarrow> firedOnce E s0 x y (countCheck t)"
  "firedOnce E s0 x y t \<Longrightarrow> firedOnce E s0 x y (countCollision t)"
  by (simp_all add: firedOnce_def frameStable_def countCheck_def countCollision_def hookCalls_def)

lemma testPair_firedOnce:
  assumes "x < nextRef s0" "y < nextRef s0" "\<not> isWeaponPickupPair (heap s0 x) (heap s0 y)"
    and "firedOnce E s0 x y t" and "(u, v) \<noteq> (y, x)"
  shows "firedOnce E s0 x y (testPair E u v t)"
  unfolding testPair_def Let_def
  using handleCollision_firedOnce [OF assms(1-3) firedOnce_counters(1) [OF assms(4)] assms(5)]
    firedOnce_counters [OF assms(4)] firedOnce_counters(2)
  by simp

lemma testPickup_firedOnce:
  assumes "x < nextRef s0" "y < nextRef s0" "\<not> isWeaponPickupPair (heap s0 x) (heap s0 y)"
    and "firedOnce E s0 x y t" and "(u, v) \<noteq> (y, x)"
  shows "firedOnce E s0 x y (testPickup E u v t)"
  unfolding testPickup_def Let_def
  using handleCollision_firedOnce [OF assms(1-3) firedOnce_counters(1) [OF assms(4)] assms(5)]
    firedOnce_counters [OF assms(4)] firedOnce_counters(2)
  by simp

lemma fold_firedOnce:
  assumes "\<And>u t. u \<in> set xs \<Longrightarrow> firedOnce E s0 x y t \<Longrightarrow> firedOnce E s0 x y (f u t)"
    and "firedOnce E s0 x y s"
  shows "firedOnce E s0 x y (fold f xs s)"
  using assms by (induction xs arbitrary: s) simp_all

lemma not_swapped:
  assumes "frameStable s0 t" "x < nextRef s0" "y < nextRef s0"
    and "\<not> dispatchOrder (heap s0 y) (heap s0 x)"
    and "dispatchOrder (heap t u) (heap t v)"
  shows "(u, v) \<noteq> (y, x)"
  using assms frameStable_dispatchOrder [OF assms(1) assms(3) assms(2)] by auto

lemma find_SomeD: "find P xs = Some r \<Longrightarrow> P r"
  by (auto simp: find_Some_iff)

lemma checkPlayerBulletEnemyCollisions_firedOnce:
  assumes x: "x < nextRef s0" and y: "y < nextRef s0"
    and np: "\<not> isWeaponPickupPair (heap s0 x) (heap s0 y)"
    and nd: "\<not> dispatchOrder (heap s0 y) (heap s0 x)"
    and inv: "firedOnce E s0 x y t"
  shows "firedOnce E s0 x y (checkPlayerBulletEnemyCollisions E t)"
proof -
  have st: "frameStable s0 t"
    using inv by (simp add: firedOnce_def)
  have ne: "(u, v) \<noteq> (y, x)"
    if "cls (heap t u) = Bullet \<and> isPlayerBullet (heap t u)" "cls (heap t v) = Enemy" for u v
    using not_swapped [OF st x y nd, of u v] that by (simp add: dispatchOrder_def)
  show ?thesis
    unfolding checkPlayerBulletEnemyCollisions_def Let_def
  proof (rule fold_firedOnce [OF _ inv])
    fix bullet t'
    assume b: "bullet \<in> set (filter (\<lambda>r. cls (heap t r) = Bullet \<and> isPlayerBullet (heap t r) \<and>
                  active (heap t r)) (gameObjects t))"
      and inv': "firedOnce E s0 x y t'"
    show "firedOnce E s0 x y
            (fold (testPair E bullet)
               (getNearbyObjects (spatialGrid t') (heap t') bullet
                  (filter (\<lambda>r. cls (heap t r) = Enemy \<and> active (heap t r)) (gameObjects t))) t')"
    proof (rule fold_firedOnce [OF _ inv'])
      fix enemy t''
      assume e: "enemy \<in> set (getNearbyObjects (spatialGrid t') (heap t') bullet
                  (filter (\<lambda>r. cls (heap t r) = Enemy \<and> active (heap t r)) (gameObjects t)))"
        and inv'': "firedOnce E s0 x y t''"
      have "cls (heap t enemy) = Enemy"
        using e by (simp add: set_getNearbyObjects)
      then have "(bullet, enemy) \<noteq> (y, x)"
        using ne [of bullet enemy] b by simp
      then show "firedOnce E s0 x y (testPair E bullet enemy t'')"
        by (rule testPair_firedOnce [OF x y np inv''])
    qed
  qed
qed

lemma checkEnemyBulletPlayerCollisions_firedOnce:
  assumes x: "x < nextRef s0" and y: "y < nextRef s0"
    and np: "\<not> isWeaponPickupPair (heap s0 x) (heap s0 y)"
    and nd: "\<not> dispatchOrder (heap s0 y) (heap s0 x)"
    and inv: "firedOnce E s0 x y t"
  shows "firedOnce E s0 x y (checkEnemyBulletPlayerCollisions E t)"
proof (cases "find (\<lambda>r. cls (heap t r) = Player \<and> active (heap t r)) (gameObjects t)")
  case None
  then show ?thesis
    using inv by (simp add: checkEnemyBulletPlayerCollisions_def)
next
  case (Some player)
  have st: "frameStable s0 t"
    using inv by (simp add: firedOnce_def)
  have p: "cls (heap t player) = Player"
    using find_SomeD [OF Some] by simp
  have "firedOnce E s0 x y
          (fold (\<lambda>bullet. testPair E bullet player)
             (filter (\<lambda>r. cls (heap t r) = Bullet \<and> \<not> isPlayerBullet (heap t r) \<and>
                           active (heap t r)) (gameObjects t)) t)"
  proof (rule fold_firedOnce [OF _ inv])
    fix bullet t'
    assume b: "bullet \<in> set (filter (\<lambda>r. cls (heap t r) = Bullet \<and> \<not> isPlayerBullet (heap t r) \<and>
                  active (heap t r)) (gameObjects t))"
      and inv': "firedOnce E s0 x y t'"
    have "dispatchOrder (heap t bullet) (heap t player)"
      using b p by (simp add: dispatchOrder_def)
    then have "(bullet, player) \<noteq> (y, x)"
      by (rule not_swapped [OF st x y nd])
    then show "firedOnce E s0 x y (testPair E bullet player t')"
      by (rule testPair_firedOnce [OF x y np inv'])
  qed
  then show ?thesis
    by (simp add: checkEnemyBulletPlayerCollisions_def Some)
qed

lemma checkPlayerEnemyCollisions_firedOnce:
  assumes x: "x < nextRef s0" and y: "y < nextRef s0"
    and np: "\<not> isWeaponPickupPair (heap s0 x) (heap s0 y)"
    and nd: "\<not> dispatchOrder (heap s0 y) (heap s0 x)"
    and inv: "firedOnce E s0 x y t"
  shows "firedOnce E s0 x y (checkPlayerEnemyCollisions E t)"
proof (cases "find (\<lambda>r. cls (heap t r) = Player \<and> active (heap t r)) (gameObjects t)")
  case None
  then show ?thesis
    using inv by (simp add: checkPlayerEnemyCollisions_def)
next
  case (Some player)
  have st: "frameStable s0 t"
    using inv by (simp add: firedOnce_def)
  have p: "cls (heap t player) = Player"
    using find_SomeD [OF Some] by simp
  have "firedOnce E s0 x y
          (fold (\<lambda>enemy. testPair E player enemy)
             (filter (\<lambda>r. cls (heap t r) = Enemy \<and> active (heap t r)) (gameObjects t)) t)"
  proof (rule fold_firedOnce [OF _ inv])
    fix enemy t'
    assume e: "enemy \<in> set (filter (\<lambda>r. cls (heap t r) = Enemy \<and> active (heap t r)) (gameObjects t))"
      and inv': "firedOnce E s0 x y t'"
    have "dispatchOrder (heap t player) (heap t enemy)"
      using e p by (simp add: dispatchOrder_def)
    then have "(player, enemy) \<noteq> (y, x)"
      by (rule not_swapped [OF st x y nd])
    then show "firedOnce E s0 x y (testPair E player enemy t')"
      by (rule testPair_firedOnce [OF x y np inv'])
  qed
  then show ?thesis
    by (simp add: checkPlayerEnemyCollisions_def Some)
qed

lemma checkPlayerWeaponPickupCollisions_firedOnce:
  assumes x: "x < nextRef s0" and y: "y < nextRef s0"
    and np: "\<not> isWeaponPickupPair (heap s0 x) (heap s0 y)"
    and nd: "\<not> dispatchOrder (heap s0 y) (heap s0 x)"
    and inv: "firedOnce E s0 x y t"
  shows "firedOnce E s0 x y (checkPlayerWeaponPickupCollisions E t)"
proof (cases "find (\<lambda>r. cls (heap t r) = Player \<and> active (heap t r)) (gameObjects t)")
  case None
  then show ?thesis
    using inv by (simp add: checkPlayerWeaponPickupCollisions_def)
next
  case (Some player)
  have st: "frameStable s0 t"
    using inv by (simp add: firedOnce_def)
  have p: "cls (heap t player) = Player"
    using find_SomeD [OF Some] by simp
  have "firedOnce E s0 x y
          (fold (\<lambda>pickup. testPickup E player pickup)
             (filter (\<lambda>r. cls (heap t r) = WeaponPickup \<and> active (heap t r)) (gameObjects t)) t)"
  proof (rule fold_firedOnce [OF _ inv])
    fix pickup t'
    assume e: "pickup \<in> set (filter (\<lambda>r. cls (heap t r) = WeaponPickup \<and> active (heap t r)) (gameObjects t))"
      and inv': "firedOnce E s0 x y t'"
    have "dispatchOrder (heap t player) (heap t pickup)"
      using e p by (simp add: dispatchOrder_def)
    then have "(player, pickup) \<noteq> (y, x)"
      by (rule not_swapped [OF st x y nd])
    then show "firedOnce E s0 x y (testPickup E player pickup t')"
      by (rule testPickup_firedOnce [OF x y np inv'])
  qed
  then show ?thesis
    by (simp add: checkPlayerWeaponPickupCollisions_def Some)
qed

lemma checkBulletBulletCollisions_firedOnce:
  assumes x: "x < nextRef s0" and y: "y < nextRef s0"
    and np: "\<not> isWeaponPickupPair (heap s0 x) (heap s0 y)"
    and nd: "\<not> dispatchOrder (heap s0 y) (heap s0 x)"
    and inv: "firedOnce E s0 x y t"
  shows "firedOnce E s0 x y (checkBulletBulletCollisions E t)"
proof -
  have st: "frameStable s0 t"
    using inv by (simp add: firedOnce_def)
  show ?thesis
    unfolding checkBulletBulletCollisions_def Let_def
  proof (rule fold_firedOnce [OF _ inv])
    fix playerBullet t'
    assume b: "playerBullet \<in> set (filter (\<lambda>r. cls (heap t r) = Bullet \<and> isPlayerBullet (heap t r) \<and>
                  active (heap t r)) (gameObjects t))"
      and inv': "firedOnce E s0 x y t'"
    show "firedOnce E s0 x y
            (fold (testPair E playerBullet)
               (filter (\<lambda>r. cls (heap t r) = Bullet \<and> \<not> isPlayerBullet (heap t r) \<and>
                             active (heap t r)) (gameObjects t)) t')"
    proof (rule fold_firedOnce [OF _ inv'])
      fix enemyBullet t''
      assume e: "enemyBullet \<in> set (filter (\<lambda>r. cls (heap t r) = Bullet \<and> \<not> isPlayerBullet (heap t r) \<and>
                             active (heap t r)) (gameObjects t))"
        and inv'': "firedOnce E s0 x y t''"
      have "dispatchOrder (heap t playerBullet) (heap t enemyBullet)"
        using b e by (simp add: dispatchOrder_def)
      then have "(playerBullet, enemyBullet) \<noteq> (y, x)"
        by (rule not_swapped [OF st x y nd])
      then show "firedOnce E s0 x y (testPair E playerBullet enemyBullet t'')"
        by (rule testPair_firedOnce [OF x y np inv''])
    qed
  qed
qed

lemma performCollisionDetection_firedOnce:
  assumes x: "x < nextRef s" and y: "y < nextRef s"
    and np: "\<not> isWeaponPickupPair (heap s x) (heap s y)"
    and nd: "\<not> dispatchOrder (heap s y) (heap s x)"
  shows "firedOnce E (s\<lparr>collisionPairs := {}\<rparr>) x y (performCollisionDetection E s)"
proof -
  let ?s0 = "s\<lparr>collisionPairs := {}\<rparr>"
  let ?s1 = "checkPlayerBulletEnemyCollisions E ?s0"
  let ?s2 = "checkEnemyBulletPlayerCollisions E ?s1"
  let ?s3 = "checkPlayerEnemyCollisions E ?s2"
  let ?s4 = "checkPlayerWeaponPickupCollisions E ?s3"
  have x0: "x < nextRef ?s0" and y0: "y < nextRef ?s0"
    and np0: "\<not> isWeaponPickupPair (heap ?s0 x) (heap ?s0 y)"
    and nd0: "\<not> dispatchOrder (heap ?s0 y) (heap ?s0 x)"
    using assms by simp_all
  have 0: "firedOnce E ?s0 x y ?s0"
    by (simp add: firedOnce_def)
  note 1 = checkPlayerBulletEnemyCollisions_firedOnce [OF x0 y0 np0 nd0 0]
  note 2 = checkEnemyBulletPlayerCollisions_firedOnce [OF x0 y0 np0 nd0 1]
  note 3 = checkPlayerEnemyCollisions_firedOnce [OF x0 y0 np0 nd0 2]
  note 4 = checkPlayerWeaponPickupCollisions_firedOnce [OF x0 y0 np0 nd0 3]
  note 5 = checkBulletBulletCollisions_firedOnce [OF x0 y0 np0 nd0 4]
  show ?thesis
    unfolding performCollisionDetection_def Let_def using 4 5 by simp
qed

lemma isWeaponPickupPair_sym: "isWeaponPickupPair p q = isWeaponPickupPair q p"
  by (auto simp: isWeaponPickupPair_def)

lemma performCollisionDetection_once:
  assumes a: "a < nextRef s" and b: "b < nextRef s"
    and np: "\<not> isWeaponPickupPair (heap s a) (heap s b)"
  shows "count_list (hookCalls (performCollisionDetection E s)) (OnCollision a b) \<le>
           count_list (hookCalls s) (OnCollision a b) + 1"
proof -
  have h: "hookCalls (s\<lparr>collisionPairs := {}\<rparr>) = hookCalls s"
    by (simp add: hookCalls_def)
  show ?thesis
  proof (cases "dispatchOrder (heap s b) (heap s a)")
    case False
    show ?thesis
      using performCollisionDetection_firedOnce [OF a b np False, of E]
      by (simp add: firedOnce_def h)
  next
    case True
    then have nd: "\<not> dispatchOrder (heap s a) (heap s b)"
      by (rule dispatchOrder_asym)
    have np': "\<not> isWeaponPickupPair (heap s b) (heap s a)"
      using np isWeaponPickupPair_sym by simp
    show ?thesis
      using performCollisionDetection_firedOnce [OF b a np' nd, of E]
      by (simp add: firedOnce_def h)
  qed
qed

lemma duelScene_registry: "gameObjects duelScene = [0, Suc 0, 2]" "debugMode duelScene = False"
  by (simp_all add: duelScene_def spawn_def addGameObject_def newWorld_def)

lemma duel_pass:
  "hookCalls (performCollisionDetection basePlatform duelScene) = [OnCollision 0 (Suc 0), OnCollision (Suc 0) 0]"
  by (simp add: performCollisionDetection_def checkPlayerBulletEnemyCollisions_def
        checkEnemyBulletPlayerCollisions_def checkPlayerEnemyCollisions_def
        checkPlayerWeaponPickupCollisions_def checkBulletBulletCollisions_def Let_def
        duelScene_registry duelScene_eval initWeaponSystem_def newPlayer_def newEnemy_def newGameObject_def
        testPair_def countCheck_def countCollision_def checkCollision_def isWeaponPickupPair_def
        checkAABBCollision_def getBounds_def handleCollision_def pairKey_def idOrFallback_def
        invokeHooks_def hasOnCollision_def onCollision_def emit_def Player_onCollision_def
        Enemy_onCollision_def Player_takeDamage_def Enemy_takeDamage_def modify_def Enemy_onDeath_def
        Enemy_checkWeaponDrop_def GameObject_destroy_def destroy_def basePlatform_def hookCalls_def
        Player_onDeath_def)

lemma pairKey_ids:
  "obj_id x \<noteq> [] \<Longrightarrow> obj_id y \<noteq> [] \<Longrightarrow> pairKey E x y = obj_id x @ ''-'' @ obj_id y"
  by (simp add: pairKey_def idOrFallback_def)


text \<open>
  Claim C3, as the code has it. In the collision pass of a frame, for two existing objects
  \<open>a\<close> and \<open>b\<close> that are not a player with a weapon pickup, the pass makes the hook call
  \<open>a.onCollision(b)\<close> at most once, whatever the categories and the grid cells that present
  the pair; \<open>a\<close> and \<open>b\<close> being arbitrary, the same holds for \<open>b.onCollision(a)\<close>. The
  dispatcher does this with the key \<open>id1-id2\<close>, the ids in the order of its arguments: once
  \<open>handleCollision a b\<close> has run in a frame, the key is recorded, it stays recorded through
  any further calls of the dispatcher in that frame, and a further \<open>handleCollision a b\<close>
  with the arguments in the same order changes nothing and invokes no hook. A player with
  a weapon pickup is exempt: the call always invokes the hooks and records no key.
\<close>

theorem C3_dedup_by_ordered_key:
  assumes "a < nextRef s" and "b < nextRef s"
  shows "(\<not> isWeaponPickupPair (heap s a) (heap s b) \<longrightarrow>
            count_list (hookCalls (performCollisionDetection E s)) (OnCollision a b) \<le>
              count_list (hookCalls s) (OnCollision a b) + 1 \<and>
            (\<forall>ps. pairKey E (heap s a) (heap s b) \<in>
                    collisionPairs (resolveAll E ps (handleCollision E a b s)) \<and>
                  handleCollision E a b (resolveAll E ps (handleCollision E a b s)) =
                    resolveAll E ps (handleCollision E a b s))) \<and>
         (isWeaponPickupPair (heap s a) (heap s b) \<longrightarrow>
            handleCollision E a b s = invokeHooks E a b s \<and>
            collisionPairs (handleCollision E a b s) = collisionPairs s)"
proof (intro conjI impI allI)
  assume "\<not> isWeaponPickupPair (heap s a) (heap s b)"
  then show "count_list (hookCalls (performCollisionDetection E s)) (OnCollision a b) \<le>
      count_list (hookCalls s) (OnCollision a b) + 1"
    by (rule performCollisionDetection_once [OF assms])
next
  fix ps
  assume np: "\<not> isWeaponPickupPair (heap s a) (heap s b)"
  let ?s1 = "handleCollision E a b s"
  let ?t = "resolveAll E ps ?s1"
  have st: "frameStable s ?t"
    using handleCollision_frameStable resolveAll_props frameStable_trans by blast
  have k1: "pairKey E (heap s a) (heap s b) \<in> collisionPairs ?s1"
    by (rule handleCollision_records [OF np])
  then show k: "pairKey E (heap s a) (heap s b) \<in> collisionPairs ?t"
    using resolveAll_props [of ?s1 E ps] by blast
  show "handleCollision E a b ?t = ?t"
    using handleCollision_noop [of ?t a b E] frameStable_pair [OF st assms] np k by simp
next
  assume "isWeaponPickupPair (heap s a) (heap s b)"
  then show "handleCollision E a b s = invokeHooks E a b s"
    by (simp add: handleCollision_def)
next
  assume "isWeaponPickupPair (heap s a) (heap s b)"
  then show "collisionPairs (handleCollision E a b s) = collisionPairs s"
    by (simp add: handleCollision_collisionPairs)
qed


text \<open>
  Player and enemy: the pass invokes each of the two hooks once, the key \<open>p-e\<close> is
  recorded and a second call of the dispatcher in the same order changes nothing. Player
  and pickup: no key is recorded.
\<close>

theorem C3_witness:
  "0 < nextRef duelScene \<and> 1 < nextRef duelScene \<and>
   \<not> isWeaponPickupPair (heap duelScene 0) (heap duelScene 1) \<and>
   hookCalls duelScene = [] \<and>
   hookCalls (performCollisionDetection basePlatform duelScene) = [OnCollision 0 1, OnCollision 1 0] \<and>
   count_list (hookCalls (performCollisionDetection basePlatform duelScene)) (OnCollision 0 1) \<le> 1 \<and>
   ''p-e'' \<in> collisionPairs (handleCollision basePlatform 0 1 duelScene) \<and>
   handleCollision basePlatform 0 1 (handleCollision basePlatform 0 1 duelScene) =
     handleCollision basePlatform 0 1 duelScene \<and>
   0 < nextRef (pickupScene 215) \<and> 1 < nextRef (pickupScene 215) \<and>
   isWeaponPickupPair (heap (pickupScene 215) 0) (heap (pickupScene 215) 1) \<and>
   collisionPairs (handleCollision basePlatform 0 1 (pickupScene 215)) = {}"
proof -
  have n: "0 < nextRef duelScene" "1 < nextRef duelScene"
    by (simp_all add: duelScene_eval)
  have np: "\<not> isWeaponPickupPair (heap duelScene 0) (heap duelScene 1)"
    by (simp add: isWeaponPickupPair_def duelScene_objects)
  have key: "pairKey basePlatform (heap duelScene 0) (heap duelScene (Suc 0)) = ''p-e''"
    by (simp add: pairKey_ids duelScene_objects)
  have e: "hookCalls duelScene = []"
    by (simp add: hookCalls_def duelScene_eval)
  have m: "0 < nextRef (pickupScene 215)" "1 < nextRef (pickupScene 215)"
    by (simp_all add: pickupScene_def spawn_def addGameObject_def newWorld_def
          newWeaponPickup_def Let_def)
  have pp: "isWeaponPickupPair (heap (pickupScene 215) 0) (heap (pickupScene 215) 1)"
    by (simp add: isWeaponPickupPair_def pickupScene_def spawn_def addGameObject_def newWorld_def
          newWeaponPickup_def Let_def initWeaponSystem_def newPlayer_def newGameObject_def)
  have c: "collisionPairs (pickupScene 215) = {}"
    by (simp add: pickupScene_def spawn_def addGameObject_def newWorld_def
          newWeaponPickup_def Let_def)
  note T = C3_dedup_by_ordered_key [OF n, of basePlatform]
  have P: "count_list (hookCalls (performCollisionDetection basePlatform duelScene)) (OnCollision 0 1) \<le>
             count_list (hookCalls duelScene) (OnCollision 0 1) + 1"
    using T np by blast
  have A: "pairKey basePlatform (heap duelScene 0) (heap duelScene 1) \<in>
             collisionPairs (resolveAll basePlatform [] (handleCollision basePlatform 0 1 duelScene)) \<and>
           handleCollision basePlatform 0 1
             (resolveAll basePlatform [] (handleCollision basePlatform 0 1 duelScene)) =
           resolveAll basePlatform [] (handleCollision basePlatform 0 1 duelScene)"
    using T np by blast
  have B: "collisionPairs (handleCollision basePlatform 0 1 (pickupScene 215)) =
           collisionPairs (pickupScene 215)"
    using C3_dedup_by_ordered_key [OF m, of basePlatform] pp by blast
  show ?thesis
    using n np m pp A B P by (simp add: key c e resolveAll_def duel_pass)
qed


text \<open>
  The key does not identify the unordered pair: for player and enemy it is \<open>p-e\<close>, for
  enemy and player \<open>e-p\<close>, and after \<open>handleCollision\<close> for player and enemy the call with
  the two arguments exchanged is not suppressed; both keys are recorded and each hook of
  the pair has then been invoked twice. Within the pass this does not happen, since none
  of its categories presents a pair in both orders.
\<close>

theorem C3_counterexample:
  "\<not> isWeaponPickupPair (heap duelScene 0) (heap duelScene 1) \<and>
   pairKey basePlatform (heap duelScene 0) (heap duelScene 1) = ''p-e'' \<and>
   pairKey basePlatform (heap duelScene 1) (heap duelScene 0) = ''e-p'' \<and>
   hookCalls (handleCollision basePlatform 1 0 (handleCollision basePlatform 0 1 duelScene)) =
     [OnCollision 0 1, OnCollision 1 0, OnCollision 1 0, OnCollision 0 1] \<and>
   collisionPairs (handleCollision basePlatform 1 0 (handleCollision basePlatform 0 1 duelScene)) =
     {''p-e'', ''e-p''}"
proof -
  let ?s1 = "handleCollision basePlatform 0 (Suc 0) duelScene"
  have n: "0 < nextRef duelScene" "Suc 0 < nextRef duelScene"
    by (simp_all add: duelScene_eval)
  have np: "\<not> isWeaponPickupPair (heap duelScene 0) (heap duelScene (Suc 0))"
      "\<not> isWeaponPickupPair (heap duelScene (Suc 0)) (heap duelScene 0)"
    by (simp_all add: isWeaponPickupPair_def duelScene_objects)
  have key: "pairKey basePlatform (heap duelScene 0) (heap duelScene (Suc 0)) = ''p-e''"
      "pairKey basePlatform (heap duelScene (Suc 0)) (heap duelScene 0) = ''e-p''"
    by (simp_all add: pairKey_ids duelScene_objects)
  have h: "hasOnCollision (heap duelScene 0)" "hasOnCollision (heap duelScene (Suc 0))"
    by (simp_all add: hasOnCollision_def duelScene_objects)
  have e: "hookCalls duelScene = []"
    by (simp add: hookCalls_def duelScene_eval)
  have st: "frameStable duelScene ?s1"
    by (rule handleCollision_frameStable)
  have n1: "0 < nextRef ?s1"
    using st n by (simp add: frameStable_def)
  have cp1: "collisionPairs ?s1 = {''p-e''}"
    using np by (simp add: handleCollision_collisionPairs key duelScene_eval(2))
  have k1: "pairKey basePlatform (heap ?s1 (Suc 0)) (heap ?s1 0) = ''e-p''"
      "\<not> isWeaponPickupPair (heap ?s1 (Suc 0)) (heap ?s1 0)"
    using frameStable_pair(1) [OF st n(2) n(1), of basePlatform]
      frameStable_pair(2) [OF st n(2) n(1)] key np by simp_all
  have h1: "hasOnCollision (heap ?s1 0)" "hasOnCollision (heap ?s1 (Suc 0))"
    using h frameStable_cls [OF st n(1)] frameStable_cls [OF st n(2)]
    by (simp_all add: hasOnCollision_def)
  have c1: "hookCalls ?s1 = [OnCollision 0 (Suc 0), OnCollision (Suc 0) 0]"
    using handleCollision_hookCalls [OF n(2), where E = basePlatform and a = 0] h
    by (simp add: key e duelScene_eval(2))
  have c2: "hookCalls (handleCollision basePlatform (Suc 0) 0 ?s1) =
      hookCalls ?s1 @ [OnCollision (Suc 0) 0, OnCollision 0 (Suc 0)]"
    using handleCollision_hookCalls [OF n1, where E = basePlatform and a = "Suc 0"] h1 k1
    by (simp add: cp1)
  have cp2: "collisionPairs (handleCollision basePlatform (Suc 0) 0 ?s1) = {''p-e'', ''e-p''}"
    by (subst handleCollision_collisionPairs) (simp add: k1 cp1 insert_commute)
  show ?thesis
    using np(1) c1 c2 cp2 key by simp
qed



section \<open>The collision phase keeps the registry\<close>

lemma frameStable_counters:
  "frameStable s (countCheck s)" "frameStable s (countCollision s)"
  by (simp_all add: frameStable_def countCheck_def countCollision_def)

lemma frameStable_after:
  "frameStable s t \<Longrightarrow> frameStable s (countCollision t)"
  "frameStable s t \<Longrightarrow> frameStable s (handleCollision E a b t)"
  using frameStable_trans frameStable_counters(2) handleCollision_frameStable by blast+

lemma testPair_frameStable: "frameStable s (testPair E a b s)"
  unfolding testPair_def Let_def
  by (simp add: frameStable_counters frameStable_after)

lemma testPickup_frameStable: "frameStable s (testPickup E a b s)"
  unfolding testPickup_def Let_def
  by (simp add: frameStable_counters frameStable_after)

lemma fold_frameStable:
  assumes "\<And>x t. frameStable t (f x t)"
  shows "frameStable s (fold f xs s)"
proof (induction xs arbitrary: s)
  case Nil
  show ?case by simp
next
  case (Cons x xs)
  show ?case
    using frameStable_trans [OF assms [of s x] Cons.IH [of "f x s"]] by simp
qed

lemma checkPlayerBulletEnemyCollisions_frameStable:
  "frameStable s (checkPlayerBulletEnemyCollisions E s)"
  unfolding checkPlayerBulletEnemyCollisions_def Let_def
  by (intro fold_frameStable testPair_frameStable)

lemma checkEnemyBulletPlayerCollisions_frameStable:
  "frameStable s (checkEnemyBulletPlayerCollisions E s)"
  unfolding checkEnemyBulletPlayerCollisions_def Let_def
  by (auto split: option.split intro!: fold_frameStable testPair_frameStable)

lemma checkPlayerEnemyCollisions_frameStable:
  "frameStable s (checkPlayerEnemyCollisions E s)"
  unfolding checkPlayerEnemyCollisions_def Let_def
  by (auto split: option.split intro!: fold_frameStable testPair_frameStable)

lemma checkPlayerWeaponPickupCollisions_frameStable:
  "frameStable s (checkPlayerWeaponPickupCollisions E s)"
  unfolding checkPlayerWeaponPickupCollisions_def Let_def
  by (auto split: option.split intro!: fold_frameStable testPickup_frameStable)

lemma checkBulletBulletCollisions_frameStable:
  "frameStable s (checkBulletBulletCollisions E s)"
  unfolding checkBulletBulletCollisions_def Let_def
  by (intro fold_frameStable testPair_frameStable)

lemma performCollisionDetection_frameStable:
  "frameStable s (performCollisionDetection E s)"
proof -
  let ?s0 = "s\<lparr>collisionPairs := {}\<rparr>"
  let ?s1 = "checkPlayerBulletEnemyCollisions E ?s0"
  let ?s2 = "checkEnemyBulletPlayerCollisions E ?s1"
  let ?s3 = "checkPlayerEnemyCollisions E ?s2"
  let ?s4 = "checkPlayerWeaponPickupCollisions E ?s3"
  have 0: "frameStable s ?s0" by (simp add: frameStable_def)
  have 4: "frameStable s ?s4"
    by (rule frameStable_trans [OF frameStable_trans [OF frameStable_trans [OF frameStable_trans [OF 0
          checkPlayerBulletEnemyCollisions_frameStable] checkEnemyBulletPlayerCollisions_frameStable]
          checkPlayerEnemyCollisions_frameStable] checkPlayerWeaponPickupCollisions_frameStable])
  have 5: "frameStable s (checkBulletBulletCollisions E ?s4)"
    by (rule frameStable_trans [OF 4 checkBulletBulletCollisions_frameStable])
  show ?thesis
    unfolding performCollisionDetection_def Let_def using 4 5 by simp
qed

lemma CollisionSystem_update_frameStable:
  "frameStable s (CollisionSystem_update E dt s)"
proof -
  let ?s1 = "s\<lparr>checksPerFrame := 0, collisionsPerFrame := 0\<rparr>"
  let ?s2 = "?s1\<lparr>spatialGrid := updateSpatialGrid (heap ?s1) (gameObjects ?s1) (spatialGrid ?s1)\<rparr>"
  let ?s3 = "performCollisionDetection E ?s2"
  have 2: "frameStable s ?s2" by (simp add: frameStable_def)
  have 3: "frameStable s ?s3"
    by (rule frameStable_trans [OF 2 performCollisionDetection_frameStable])
  have "frameStable ?s3 (?s3\<lparr> totalChecks := totalChecks ?s3 + checksPerFrame ?s3,
               totalCollisions := totalCollisions ?s3 + collisionsPerFrame ?s3 \<rparr>)"
    by (simp add: frameStable_def)
  then have "frameStable s (?s3\<lparr> totalChecks := totalChecks ?s3 + checksPerFrame ?s3,
               totalCollisions := totalCollisions ?s3 + collisionsPerFrame ?s3 \<rparr>)"
    using 3 frameStable_trans by blast
  then show ?thesis
    unfolding CollisionSystem_update_def Let_def by simp
qed

lemma length_splice1: "i < length xs \<Longrightarrow> length (splice1 i xs) = length xs - 1"
  by (simp add: splice1_def)

lemma splice1_nth: "i \<le> j \<Longrightarrow> i < length xs \<Longrightarrow> splice1 i xs ! j = xs ! Suc j"
  by (simp add: splice1_def nth_append min_def)

lemma updateObjects_prunes:
  assumes E: "registryAppendOnly E"
  shows "n \<le> length (gameObjects s) \<Longrightarrow>
     \<forall>q \<in> F. shouldDestroy (heap s q) \<Longrightarrow>
     \<forall>i. n \<le> i \<and> i < length (gameObjects s) \<longrightarrow> gameObjects s ! i \<notin> F \<Longrightarrow>
     \<exists>s'. updateObjects E dt n s = Some s' \<and> set (gameObjects s') \<inter> F = {} \<and>
          (\<forall>q \<in> F. shouldDestroy (heap s' q))"
proof (induction n arbitrary: s)
  case 0
  then show ?case
    by (auto simp: in_set_conv_nth)
next
  case (Suc i)
  let ?obj = "gameObjects s ! i"
  let ?s1 = "objUpdate E dt ?obj s"
  let ?s2 = "if shouldDestroy (heap ?s1 ?obj) then ?s1\<lparr>gameObjects := splice1 i (gameObjects ?s1)\<rparr> else ?s1"
  from E have pre: "prefix (gameObjects s) (gameObjects ?s1)"
    and keep: "\<And>q. shouldDestroy (heap s q) \<Longrightarrow> shouldDestroy (heap ?s1 q)"
    and fresh: "\<And>q. shouldDestroy (heap s q) \<Longrightarrow>
                  q \<notin> set (drop (length (gameObjects s)) (gameObjects ?s1))"
    unfolding registryAppendOnly_def by blast+
  from pre obtain new where new: "gameObjects ?s1 = gameObjects s @ new"
    by (auto simp: prefix_def)
  have newF: "set new \<inter> F = {}"
    using fresh Suc.prems(2) new by auto
  have i: "i < length (gameObjects s)" using Suc.prems(1) by simp
  have flagged1: "\<forall>q \<in> F. shouldDestroy (heap ?s1 q)"
    using keep Suc.prems(2) by blast
  have above1: "\<forall>j. Suc i \<le> j \<and> j < length (gameObjects ?s1) \<longrightarrow> gameObjects ?s1 ! j \<notin> F"
  proof (intro allI impI)
    fix j assume j: "Suc i \<le> j \<and> j < length (gameObjects ?s1)"
    show "gameObjects ?s1 ! j \<notin> F"
    proof (cases "j < length (gameObjects s)")
      case True
      then show ?thesis using Suc.prems(3) j by (simp add: new nth_append)
    next
      case False
      then have "j - length (gameObjects s) < length new"
        using j unfolding new by (auto simp: less_diff_conv2)
      then have "gameObjects ?s1 ! j \<in> set new"
        using False by (simp add: new nth_append)
      then show ?thesis using newF by blast
    qed
  qed
  have obj1: "gameObjects ?s1 ! i = ?obj"
    using i by (simp add: new nth_append)
  have len2: "i \<le> length (gameObjects ?s2)"
    using i by (auto simp: new length_splice1)
  have flagged2: "\<forall>q \<in> F. shouldDestroy (heap ?s2 q)"
    using flagged1 by simp
  have above2: "\<forall>j. i \<le> j \<and> j < length (gameObjects ?s2) \<longrightarrow> gameObjects ?s2 ! j \<notin> F"
  proof (cases "shouldDestroy (heap ?s1 ?obj)")
    case True
    have i1: "i < length (gameObjects ?s1)"
      using i by (simp add: new)
    have "gameObjects ?s2 ! j = gameObjects ?s1 ! Suc j" if "i \<le> j" "j < length (gameObjects ?s2)" for j
      using that True i1 by (simp add: splice1_nth)
    moreover have "Suc j < length (gameObjects ?s1)" if "i \<le> j" "j < length (gameObjects ?s2)" for j
      using that True i1 by (simp add: length_splice1)
    ultimately show ?thesis
      using above1 by simp
  next
    case False
    then have nf: "?obj \<notin> F" using flagged1 by blast
    show ?thesis
    proof (intro allI impI)
      fix j assume j: "i \<le> j \<and> j < length (gameObjects ?s2)"
      show "gameObjects ?s2 ! j \<notin> F"
      proof (cases "j = i")
        case True
        then show ?thesis using False nf obj1 by simp
      next
        case ne: False
        then have "Suc i \<le> j" using j by simp
        then show ?thesis using False above1 j by simp
      qed
    qed
  qed
  have "updateObjects E dt (Suc i) s = updateObjects E dt i ?s2"
    using i by (simp add: Let_def)
  then show ?case
    using Suc.IH [OF len2 flagged2 above2] by simp
qed

lemma updateObjects_total_prunes:
  assumes "registryAppendOnly E"
  shows "\<exists>s'. updateObjects E dt (length (gameObjects s)) s = Some s' \<and>
     (\<forall>q. shouldDestroy (heap s q) \<longrightarrow> q \<notin> set (gameObjects s'))"
proof -
  have "\<exists>s'. updateObjects E dt (length (gameObjects s)) s = Some s' \<and>
          set (gameObjects s') \<inter> {q. shouldDestroy (heap s q)} = {} \<and>
          (\<forall>q \<in> {q. shouldDestroy (heap s q)}. shouldDestroy (heap s' q))"
    by (rule updateObjects_prunes [OF assms]) auto
  then show ?thesis by blast
qed

lemma update_total:
  assumes "registryAppendOnly E"
  shows "\<exists>s'. update E dt s = Some s'"
  using updateObjects_total_prunes [OF assms, of dt s]
  by (auto simp: update_def Let_def)

section \<open>The scheduler\<close>


lemma gameLoop_below_interval:
  assumes "isRunning e" "currentTime - lastTime e < frameInterval e"
  shows "gameLoop E currentTime e = Some (called RequestAnimationFrame e)"
  using assms by (simp add: gameLoop_def Let_def)

lemma fpsCounted_fields [simp]:
  "isRunning (fpsCounted d e) = isRunning e" "isPaused (fpsCounted d e) = isPaused e"
  "lastTime (fpsCounted d e) = lastTime e" "frameInterval (fpsCounted d e) = frameInterval e"
  "sim (fpsCounted d e) = sim e" "calls (fpsCounted d e) = calls e"
  by (simp_all add: fpsCounted_def Let_def)

lemma handlePauseInput_fields [simp]:
  "isRunning (handlePauseInput e) = isRunning e"
  "isPaused (handlePauseInput e) = (isPaused e \<noteq> isPausePressed (sim e))"
  "lastTime (handlePauseInput e) = lastTime e" "frameInterval (handlePauseInput e) = frameInterval e"
  "sim (handlePauseInput e) = sim e" "calls (handlePauseInput e) = calls e @ [HandlePauseInput]"
  by (auto simp: handlePauseInput_def Let_def called_def pause_def)

lemma finishFrame_fields [simp]:
  "isRunning (finishFrame t d e) = isRunning e" "isPaused (finishFrame t d e) = isPaused e"
  "lastTime (finishFrame t d e) = t - jsRem d (frameInterval e)"
  "frameInterval (finishFrame t d e) = frameInterval e"
  "sim (finishFrame t d e) = sim e" "calls (finishFrame t d e) = calls e @ [Render, RequestAnimationFrame]"
  by (simp_all add: finishFrame_def render_def called_def)

lemma gameLoop_frame:
  assumes "isRunning e" "frameInterval e \<le> currentTime - lastTime e"
  shows "gameLoop E currentTime e =
     (let deltaTime = currentTime - lastTime e;
          e1 = handlePauseInput (fpsCounted deltaTime e)
      in if isPaused e1
         then Some (finishFrame currentTime deltaTime
                      ((called InputManagerUpdate e1)\<lparr>sim := InputManager_update (sim e1)\<rparr>))
         else map_option (\<lambda>w. finishFrame currentTime deltaTime ((called (Update deltaTime) e1)\<lparr>sim := w\<rparr>))
                (update E deltaTime (sim e1)))"
  using assms
  by (simp add: gameLoop_def Let_def fpsCounted_def finishFrame_def split: option.split)

lemma gameLoop_paused_frame:
  assumes "isRunning e" "frameInterval e \<le> currentTime - lastTime e"
    and "isPaused e \<noteq> isPausePressed (sim e)"
  shows "\<exists>e'. gameLoop E currentTime e = Some e' \<and> isPaused e' \<and> isRunning e' \<and>
     frameInterval e' = frameInterval e \<and>
     sim e' = InputManager_update (sim e) \<and>
     calls e' = calls e @ [HandlePauseInput, InputManagerUpdate, Render, RequestAnimationFrame] \<and>
     lastTime e' = currentTime - jsRem (currentTime - lastTime e) (frameInterval e)"
  using assms by (simp add: gameLoop_frame Let_def called_def)

lemma gameLoop_unpaused_frame:
  assumes "isRunning e" "frameInterval e \<le> currentTime - lastTime e"
    and "isPaused e = isPausePressed (sim e)"
    and "update E (currentTime - lastTime e) (sim e) = Some w"
  shows "\<exists>e'. gameLoop E currentTime e = Some e' \<and> \<not> isPaused e' \<and> isRunning e' \<and>
     frameInterval e' = frameInterval e \<and>
     sim e' = w \<and>
     calls e' = calls e @ [HandlePauseInput, Update (currentTime - lastTime e), Render, RequestAnimationFrame] \<and>
     lastTime e' = currentTime - jsRem (currentTime - lastTime e) (frameInterval e)"
  using assms by (simp add: gameLoop_frame Let_def called_def)

lemma GameObject_update_registry:
  "gameObjects (GameObject_update dt r s) = gameObjects s"
  by (simp add: GameObject_update_def GameObject_checkBounds_def GameObject_destroy_def
        modify_def Let_def)

lemma GameObject_update_flag:
  "shouldDestroy (heap s q) \<Longrightarrow> shouldDestroy (heap (GameObject_update dt r s) q)"
  by (auto simp: GameObject_update_def GameObject_checkBounds_def GameObject_destroy_def
        modify_def destroy_def Let_def)

lemma registryAppendOnly_base: "registryAppendOnly basePlatform"
  by (simp add: registryAppendOnly_def basePlatform_def GameObject_update_registry
        GameObject_update_flag)




text \<open>
  Claim C6, as the code has it. A tick of the running engine that comes before the frame
  interval has elapsed does nothing but request the next tick: it does not look at the
  pause key, and a key press recorded by the input manager stays recorded. A tick at or
  after the interval handles the pause input whatever the pause state, and the engine is
  paused afterwards exactly when it was paused without a press or running with a press.
  When it is paused afterwards, the tick leaves the object store and the registry as they
  were (no entity moves), adds nothing to the trace (no collision hook is invoked) and
  does not call \<open>update\<close>. So a paused engine stays paused and unchanged without a press,
  and resumes at the first such tick that sees a press.
\<close>

theorem C6_pause:
  assumes "registryAppendOnly E" and "isRunning e"
  shows "(currentTime - lastTime e < frameInterval e \<longrightarrow>
            gameLoop E currentTime e = Some (called RequestAnimationFrame e)) \<and>
         (frameInterval e \<le> currentTime - lastTime e \<longrightarrow>
            (\<exists>e'. gameLoop E currentTime e = Some e' \<and>
               isPaused e' = (isPaused e \<noteq> isPausePressed (sim e)) \<and>
               HandlePauseInput \<in> set (drop (length (calls e)) (calls e')) \<and>
               (isPaused e' \<longrightarrow>
                  heap (sim e') = heap (sim e) \<and> gameObjects (sim e') = gameObjects (sim e) \<and>
                  trace (sim e') = trace (sim e) \<and>
                  filter isUpdateCall (calls e') = filter isUpdateCall (calls e))))"
proof (intro conjI impI)
  assume "currentTime - lastTime e < frameInterval e"
  then show "gameLoop E currentTime e = Some (called RequestAnimationFrame e)"
    using assms(2) by (rule gameLoop_below_interval [rotated])
next
  assume i: "frameInterval e \<le> currentTime - lastTime e"
  obtain w where w: "update E (currentTime - lastTime e) (sim e) = Some w"
    using update_total [OF assms(1)] by blast
  show "\<exists>e'. gameLoop E currentTime e = Some e' \<and>
               isPaused e' = (isPaused e \<noteq> isPausePressed (sim e)) \<and>
               HandlePauseInput \<in> set (drop (length (calls e)) (calls e')) \<and>
               (isPaused e' \<longrightarrow>
                  heap (sim e') = heap (sim e) \<and> gameObjects (sim e') = gameObjects (sim e) \<and>
                  trace (sim e') = trace (sim e) \<and>
                  filter isUpdateCall (calls e') = filter isUpdateCall (calls e))"
  proof (cases "isPaused e = isPausePressed (sim e)")
    case True
    from gameLoop_unpaused_frame [OF assms(2) i True w] show ?thesis
      using True by auto
  next
    case False
    from gameLoop_paused_frame [OF assms(2) i False, of E] show ?thesis
      using False by (auto simp: InputManager_update_def)
  qed
qed



lemma pausedEngine_eval:
  "isRunning pausedEngine" "isPaused pausedEngine" "lastTime pausedEngine = 0"
  "frameInterval pausedEngine = 1000 / 60" "calls pausedEngine = []"
  "\<not> isPausePressed (sim pausedEngine)"
  "isRunning pausedEngineKey" "isPaused pausedEngineKey" "lastTime pausedEngineKey = 0"
  "frameInterval pausedEngineKey = 1000 / 60" "calls pausedEngineKey = []"
  "isPausePressed (sim pausedEngineKey)"
  "heap (sim pausedEngineKey) = heap (sim pausedEngine)"
  by (simp_all add: pausedEngineKey_def pausedEngine_def idleEngine_def newGameEngine_def
        newWorld_def isPausePressed_def)




text \<open>
  The paused engine at 20 ms: without a press it stays paused and its objects are
  unchanged; with a press it resumes. At 5 ms the press is not looked at.
\<close>

theorem C6_witness:
  "registryAppendOnly basePlatform \<and> isRunning pausedEngine \<and> isRunning pausedEngineKey \<and>
   isPaused pausedEngine \<and> \<not> isPausePressed (sim pausedEngine) \<and>
   frameInterval pausedEngine \<le> 20 - lastTime pausedEngine \<and>
   gameLoop basePlatform 20 pausedEngine \<noteq> None \<and>
   isPaused (the (gameLoop basePlatform 20 pausedEngine)) \<and>
   heap (sim (the (gameLoop basePlatform 20 pausedEngine))) = heap (sim pausedEngine) \<and>
   trace (sim (the (gameLoop basePlatform 20 pausedEngine))) = trace (sim pausedEngine) \<and>
   isPaused pausedEngineKey \<and> isPausePressed (sim pausedEngineKey) \<and>
   frameInterval pausedEngineKey \<le> 20 - lastTime pausedEngineKey \<and>
   gameLoop basePlatform 20 pausedEngineKey \<noteq> None \<and>
   \<not> isPaused (the (gameLoop basePlatform 20 pausedEngineKey)) \<and>
   5 - lastTime pausedEngineKey < frameInterval pausedEngineKey \<and>
   gameLoop basePlatform 5 pausedEngineKey = Some (called RequestAnimationFrame pausedEngineKey)"
proof -
  have i: "frameInterval pausedEngine \<le> 20 - lastTime pausedEngine"
      "frameInterval pausedEngineKey \<le> 20 - lastTime pausedEngineKey"
      "5 - lastTime pausedEngineKey < frameInterval pausedEngineKey"
    by (simp_all add: pausedEngine_eval)
  note A = C6_pause [OF registryAppendOnly_base pausedEngine_eval(1), of 20, THEN conjunct2, rule_format, OF i(1)]
  note B = C6_pause [OF registryAppendOnly_base pausedEngine_eval(7), of 20, THEN conjunct2, rule_format, OF i(2)]
  note C = C6_pause [OF registryAppendOnly_base pausedEngine_eval(7), of 5, THEN conjunct1, rule_format, OF i(3)]
  from A obtain e' where 1: "gameLoop basePlatform 20 pausedEngine = Some e'" "isPaused e'"
      "heap (sim e') = heap (sim pausedEngine)" "trace (sim e') = trace (sim pausedEngine)"
    by (auto simp: pausedEngine_eval)
  from B obtain e'' where 2: "gameLoop basePlatform 20 pausedEngineKey = Some e''" "\<not> isPaused e''"
    by (auto simp: pausedEngine_eval)
  show ?thesis
    using registryAppendOnly_base i 1 2 C by (simp add: pausedEngine_eval)
qed

text \<open>
  The claim as stated has the pause input polled and acted on at every tick. At 5 ms after
  the last frame the paused engine with a fresh press of the pause key does not call
  \<open>handlePauseInput\<close> and is still paused after the tick.
\<close>

theorem C6_counterexample:
  "isRunning pausedEngineKey \<and> isPaused pausedEngineKey \<and> isPausePressed (sim pausedEngineKey) \<and>
   gameLoop basePlatform 5 pausedEngineKey = Some (called RequestAnimationFrame pausedEngineKey) \<and>
   isPaused (called RequestAnimationFrame pausedEngineKey) \<and>
   HandlePauseInput \<notin> set (calls (called RequestAnimationFrame pausedEngineKey))"
proof -
  have "5 - lastTime pausedEngineKey < frameInterval pausedEngineKey"
    by (simp add: pausedEngine_eval)
  from gameLoop_below_interval [OF pausedEngine_eval(7) this]
  show ?thesis
    by (simp add: pausedEngine_eval called_def)
qed

section \<open>Destroyed entities and the registry\<close>

lemma frameStable_flag:
  "frameStable s t \<Longrightarrow> r < nextRef s \<Longrightarrow> shouldDestroy (heap s r) \<Longrightarrow> shouldDestroy (heap t r)"
  by (simp add: frameStable_def sameEntity_def)

lemma frameStable_registry:
  "frameStable s t \<Longrightarrow> r \<in> set (gameObjects s) \<Longrightarrow> r \<in> set (gameObjects t)"
  by (auto simp: frameStable_def prefix_def)

lemma frameStable_nextRef: "frameStable s t \<Longrightarrow> r < nextRef s \<Longrightarrow> r < nextRef t"
  by (simp add: frameStable_def)

lemma enemy_bullet_hook_destroys_bullet:
  assumes "cls (heap s b) = Bullet" "\<not> isPlayerBullet (heap s b)" "cls (heap s p) = Player"
  shows "shouldDestroy (heap (onCollision E b p s) b)"
  using assms
  by (simp add: onCollision_def emit_def Bullet_onCollision_def GameObject_destroy_def modify_def
        destroy_def Let_def)

lemma testPair_enemy_bullet_player:
  assumes b: "cls (heap s b) = Bullet" "\<not> isPlayerBullet (heap s b)" "active (heap s b)"
    and p: "cls (heap s p) = Player" "active (heap s p)"
    and ov: "checkAABBCollision (heap s b) (heap s p)"
    and key: "pairKey E (heap s b) (heap s p) \<notin> collisionPairs s"
    and n: "b < nextRef s"
  shows "shouldDestroy (heap (testPair E b p s) b)"
proof -
  let ?s0 = "countCheck s"
  let ?s1 = "?s0\<lparr>collisionPairs := insert (pairKey E (heap s b) (heap s p)) (collisionPairs s)\<rparr>"
  let ?s2 = "onCollision E b p ?s1"
  have np: "\<not> isWeaponPickupPair (heap s b) (heap s p)"
    using b p by (simp add: isWeaponPickupPair_def)
  have cc: "checkCollision (heap ?s0 b) (heap ?s0 p)"
    using b p ov np by (simp add: checkCollision_def countCheck_def)
  have hc: "handleCollision E b p ?s0 = invokeHooks E b p ?s1"
    using np key by (simp add: handleCollision_def countCheck_def Let_def)
  have f2: "shouldDestroy (heap ?s2 b)"
    by (rule enemy_bullet_hook_destroys_bullet) (use b p in \<open>simp_all add: countCheck_def\<close>)
  have n2: "b < nextRef ?s2"
    by (rule frameStable_nextRef [OF onCollision_frameStable]) (simp add: n countCheck_def)
  have h1: "hasOnCollision (heap ?s1 b)"
    using b by (simp add: hasOnCollision_def countCheck_def)
  have "frameStable ?s2 (invokeHooks E b p ?s1)"
    using h1 onCollision_frameStable [of ?s2 E p b]
    by (simp add: invokeHooks_def Let_def)
  then have "shouldDestroy (heap (invokeHooks E b p ?s1) b)"
    using frameStable_flag n2 f2 by blast
  then show ?thesis
    using cc hc by (simp add: testPair_def Let_def countCollision_def)
qed

lemma bulletScene_eval:
  "heap bulletScene 0 = initWeaponSystem (newPlayer ''p'' 400 550)"
  "heap bulletScene (Suc 0) = newBullet ''b'' 400 540 0 200 False"
  "gameObjects bulletScene = [0, Suc 0]" "nextRef bulletScene = 2"
  "currentScene bulletScene = GAME" "enabled bulletScene" "\<not> debugMode bulletScene"
  "canvasWidth bulletScene = 800" "canvasHeight bulletScene = 600"
  by (simp_all add: bulletScene_def spawn_def addGameObject_def newWorld_def)

lemma GameObject_update_still:
  assumes "vx (heap s r) = 0" "vy (heap s r) = 0"
    and "0 \<le> obj_x (heap s r) + width (heap s r) / 2"
    and "obj_x (heap s r) - width (heap s r) / 2 \<le> canvasWidth s"
    and "0 \<le> obj_y (heap s r) + height (heap s r) / 2"
    and "obj_y (heap s r) - height (heap s r) / 2 \<le> canvasHeight s"
  shows "GameObject_update dt r s = s"
  using assms
  by (simp add: GameObject_update_def GameObject_checkBounds_def modify_def Let_def)

lemma step1: "GameObject_update 20 (Suc 0) bulletScene = afterLoop"
  by (simp add: GameObject_update_def GameObject_checkBounds_def modify_def Let_def afterLoop_def
        bulletScene_eval newBullet_def newGameObject_def)

lemma afterLoop_eval:
  "heap afterLoop 0 = initWeaponSystem (newPlayer ''p'' 400 550)"
  "heap afterLoop (Suc 0) = newBullet ''b'' 400 544 0 200 False"
  "gameObjects afterLoop = [0, Suc 0]" "nextRef afterLoop = 2"
  "currentScene afterLoop = GAME" "enabled afterLoop" "\<not> debugMode afterLoop"
  "canvasWidth afterLoop = 800" "canvasHeight afterLoop = 600"
  by (simp_all add: afterLoop_def modify_def bulletScene_eval newBullet_def newGameObject_def)

lemma step0: "GameObject_update 20 0 afterLoop = afterLoop"
  by (rule GameObject_update_still)
     (simp_all add: afterLoop_eval newPlayer_def initWeaponSystem_def newGameObject_def)

lemma loop_eval: "updateObjects basePlatform 20 (length (gameObjects bulletScene)) bulletScene = Some afterLoop"
proof -
  have 3: "length (gameObjects bulletScene) = Suc (Suc 0)"
    by (simp add: bulletScene_eval)
  have u: "objUpdate basePlatform = GameObject_update"
    by (simp add: basePlatform_def)
  have nf: "\<not> shouldDestroy (heap afterLoop (Suc 0))" "\<not> shouldDestroy (heap afterLoop 0)"
    by (simp_all add: afterLoop_eval newBullet_def newPlayer_def initWeaponSystem_def
          newGameObject_def)
  show ?thesis
    unfolding 3
    by (simp add: u Let_def bulletScene_eval(3) afterLoop_eval(3) step1 step0 nf)
qed


lemma performCollisionDetection_flag:
  assumes "shouldDestroy (heap (checkEnemyBulletPlayerCollisions E
             (checkPlayerBulletEnemyCollisions E (s\<lparr>collisionPairs := {}\<rparr>))) r)"
    and "r < nextRef s"
  shows "shouldDestroy (heap (performCollisionDetection E s) r)"
proof -
  let ?s0 = "s\<lparr>collisionPairs := {}\<rparr>"
  let ?s2 = "checkEnemyBulletPlayerCollisions E (checkPlayerBulletEnemyCollisions E ?s0)"
  let ?s4 = "checkPlayerWeaponPickupCollisions E (checkPlayerEnemyCollisions E ?s2)"
  have "frameStable ?s0 ?s2"
    using checkPlayerBulletEnemyCollisions_frameStable checkEnemyBulletPlayerCollisions_frameStable
      frameStable_trans by blast
  then have n2: "r < nextRef ?s2"
    using assms(2) frameStable_nextRef [of ?s0 ?s2 r] by simp
  have 4: "frameStable ?s2 ?s4"
    using checkPlayerEnemyCollisions_frameStable checkPlayerWeaponPickupCollisions_frameStable
      frameStable_trans by blast
  have 5: "frameStable ?s2 (checkBulletBulletCollisions E ?s4)"
    using 4 checkBulletBulletCollisions_frameStable frameStable_trans by blast
  have "shouldDestroy (heap ?s4 r)" "shouldDestroy (heap (checkBulletBulletCollisions E ?s4) r)"
    using frameStable_flag [OF 4 n2 assms(1)] frameStable_flag [OF 5 n2 assms(1)] by simp_all
  then show ?thesis
    by (simp add: performCollisionDetection_def Let_def)
qed

lemma afterLoop_no_player_bullets:
  assumes "heap t = heap afterLoop" "gameObjects t = gameObjects afterLoop"
  shows "checkPlayerBulletEnemyCollisions E t = t"
  using assms
  by (simp add: checkPlayerBulletEnemyCollisions_def Let_def afterLoop_eval newBullet_def
        newPlayer_def initWeaponSystem_def newGameObject_def)

lemma afterLoop_enemy_bullet:
  assumes "heap t = heap afterLoop" "gameObjects t = gameObjects afterLoop"
  shows "checkEnemyBulletPlayerCollisions E t = testPair E (Suc 0) 0 t"
  using assms
  by (simp add: checkEnemyBulletPlayerCollisions_def Let_def afterLoop_eval newBullet_def
        newPlayer_def initWeaponSystem_def newGameObject_def)

lemma afterLoop_collision:
  "shouldDestroy (heap (CollisionSystem_update basePlatform 20 afterLoop) (Suc 0))"
proof -
  let ?s2 = "afterLoop\<lparr>checksPerFrame := 0, collisionsPerFrame := 0,
      spatialGrid := updateSpatialGrid (heap afterLoop) (gameObjects afterLoop) (spatialGrid afterLoop)\<rparr>"
  let ?s3 = "?s2\<lparr>collisionPairs := {}\<rparr>"
  have h: "heap ?s3 = heap afterLoop" "gameObjects ?s3 = gameObjects afterLoop"
    by simp_all
  have t: "shouldDestroy (heap (testPair basePlatform (Suc 0) 0 ?s3) (Suc 0))"
    by (rule testPair_enemy_bullet_player)
       (simp_all add: afterLoop_eval newBullet_def newPlayer_def initWeaponSystem_def
          newGameObject_def checkAABBCollision_def getBounds_def)
  have "shouldDestroy (heap (performCollisionDetection basePlatform ?s2) (Suc 0))"
    by (rule performCollisionDetection_flag)
       (simp_all only: afterLoop_no_player_bullets [OF h] afterLoop_enemy_bullet [OF h] t,
        simp add: afterLoop_eval)
  then show ?thesis
    by (simp add: CollisionSystem_update_def Let_def afterLoop_eval)
qed

lemma update_eval: "update basePlatform 20 bulletScene = Some frame1"
  using loop_eval
  by (simp add: update_def Let_def basePlatform_def isInGame_def afterLoop_eval frame1_def)

lemma frame1_facts:
  "shouldDestroy (heap frame1 (Suc 0))" "Suc 0 \<in> set (gameObjects frame1)"
proof -
  show "shouldDestroy (heap frame1 (Suc 0))"
    using afterLoop_collision by (simp add: frame1_def InputManager_update_def)
  have "Suc 0 \<in> set (gameObjects (CollisionSystem_update basePlatform 20 afterLoop))"
    by (rule frameStable_registry [OF CollisionSystem_update_frameStable])
       (simp add: afterLoop_eval)
  then show "Suc 0 \<in> set (gameObjects frame1)"
    by (simp add: frame1_def InputManager_update_def)
qed

lemma bulletEngine_eval:
  "isRunning bulletEngine" "\<not> isPaused bulletEngine" "lastTime bulletEngine = 0"
  "frameInterval bulletEngine = 1000 / 60" "sim bulletEngine = bulletScene"
  by (simp_all add: bulletEngine_def newGameEngine_def)

lemma bulletScene_keys: "\<not> isPausePressed bulletScene"
  by (simp add: isPausePressed_def bulletScene_def spawn_def addGameObject_def newWorld_def)

lemma tick1:
  "\<exists>e'. gameLoop basePlatform 20 bulletEngine = Some e' \<and> sim e' = frame1 \<and> isRunning e'"
proof -
  have i: "frameInterval bulletEngine \<le> 20 - lastTime bulletEngine"
    by (simp add: bulletEngine_eval)
  have p: "isPaused bulletEngine = isPausePressed (sim bulletEngine)"
    by (simp add: bulletEngine_eval bulletScene_keys)
  have u: "update basePlatform (20 - lastTime bulletEngine) (sim bulletEngine) = Some frame1"
    by (simp add: bulletEngine_eval update_eval)
  from gameLoop_unpaused_frame [OF bulletEngine_eval(1) i p u] show ?thesis
    by auto
qed


lemma update_inGame:
  assumes "beforeCollision E dt w = Some t" and "isInGame t"
  shows "update E dt w = Some (afterCollision E dt (CollisionSystem_update E dt t))"
  using assms
  by (auto simp: beforeCollision_def update_def afterCollision_def Let_def split: option.splits)

lemma marked_survives_frame:
  assumes "beforeCollision E dt w = Some t" and "isInGame t"
    and later: "frameStable (CollisionSystem_update E dt t)
                  (afterCollision E dt (CollisionSystem_update E dt t))"
    and r: "r < nextRef t" "r \<in> set (gameObjects t)"
    and flag: "shouldDestroy (heap (CollisionSystem_update E dt t) r)"
  shows "\<exists>w'. update E dt w = Some w' \<and> r \<in> set (gameObjects w') \<and> shouldDestroy (heap w' r)"
proof -
  let ?c = "CollisionSystem_update E dt t"
  have c: "frameStable t ?c"
    by (rule CollisionSystem_update_frameStable)
  have "r < nextRef ?c" "r \<in> set (gameObjects ?c)"
    using frameStable_nextRef [OF c r(1)] frameStable_registry [OF c r(2)] by simp_all
  then have "r \<in> set (gameObjects (afterCollision E dt ?c))"
      "shouldDestroy (heap (afterCollision E dt ?c) r)"
    using frameStable_registry [OF later] frameStable_flag [OF later _ flag] by simp_all
  then show ?thesis
    using update_inGame [OF assms(1,2)] by simp
qed

lemma marked_survives_tick:
  assumes run: "isRunning e" "frameInterval e \<le> currentTime - lastTime e"
      "isPaused e = isPausePressed (sim e)"
    and "beforeCollision E (currentTime - lastTime e) (sim e) = Some t" and "isInGame t"
    and "frameStable (CollisionSystem_update E (currentTime - lastTime e) t)
           (afterCollision E (currentTime - lastTime e)
              (CollisionSystem_update E (currentTime - lastTime e) t))"
    and "r < nextRef t" "r \<in> set (gameObjects t)"
    and "shouldDestroy (heap (CollisionSystem_update E (currentTime - lastTime e) t) r)"
  shows "\<exists>e'. gameLoop E currentTime e = Some e' \<and>
              update E (currentTime - lastTime e) (sim e) = Some (sim e') \<and>
              r \<in> set (gameObjects (sim e')) \<and> shouldDestroy (heap (sim e') r)"
proof -
  from marked_survives_frame [OF assms(4-9)]
  obtain w' where w: "update E (currentTime - lastTime e) (sim e) = Some w'"
      "r \<in> set (gameObjects w')" "shouldDestroy (heap w' r)"
    by blast
  from gameLoop_unpaused_frame [OF run w(1)]
  obtain e' where "gameLoop E currentTime e = Some e'" "sim e' = w'"
    by blast
  then show ?thesis
    using w by auto
qed

lemma bulletScene_before: "beforeCollision basePlatform 20 bulletScene = Some afterLoop"
  using loop_eval by (simp add: beforeCollision_def basePlatform_def)

lemma afterCollision_base: "afterCollision basePlatform dt s = InputManager_update s"
  by (simp add: afterCollision_def basePlatform_def)

lemma frameStable_InputManager_update: "frameStable s (InputManager_update s)"
  by (simp add: frameStable_def InputManager_update_def)


text \<open>
  Claim C7, as the code has it. Nothing in the collision phase removes an entry of the
  registry: across one call of the dispatcher, across any sequence of such calls, and
  across the whole collision phase, the registry only grows at its end and every existing
  object keeps its class, id, position and size, with a destruction flag that was set
  still set. An entity marked during the collision phase is therefore still registered,
  with this state, for every hook invoked later in the frame. Nothing prunes the registry
  at the end of \<open>update\<close>: in a tick of the running, unpaused game in which the systems
  that run after the collision system leave the objects and the registry as they are (a
  level start, which drops the enemies from the registry, is a tick where they do not),
  the marked entity is still registered and still marked in the world that the tick
  leaves behind, which is the world that \<open>update\<close> returned and that the next tick starts
  from. It is removed by the loop over the registry at the beginning of the next
  \<open>update\<close>, which splices out each flagged object right after that object's own
  \<open>update\<close> call, while the loop is running: after that loop no object that was flagged
  before it is registered (for \<open>update\<close> methods that leave the registry append-only).
\<close>

theorem C7_destroyed_entities:
  "frameStable s (handleCollision E a b s) \<and>
   frameStable s (resolveAll E ps s) \<and>
   frameStable s (CollisionSystem_update E dt s) \<and>
   (isRunning e \<and> frameInterval e \<le> currentTime - lastTime e \<and>
    isPaused e = isPausePressed (sim e) \<and>
    beforeCollision E (currentTime - lastTime e) (sim e) = Some t \<and> isInGame t \<and>
    frameStable (CollisionSystem_update E (currentTime - lastTime e) t)
      (afterCollision E (currentTime - lastTime e)
         (CollisionSystem_update E (currentTime - lastTime e) t)) \<and>
    r < nextRef t \<and> r \<in> set (gameObjects t) \<and>
    shouldDestroy (heap (CollisionSystem_update E (currentTime - lastTime e) t) r) \<longrightarrow>
      (\<exists>e'. gameLoop E currentTime e = Some e' \<and>
            update E (currentTime - lastTime e) (sim e) = Some (sim e') \<and>
            r \<in> set (gameObjects (sim e')) \<and> shouldDestroy (heap (sim e') r))) \<and>
   (registryAppendOnly E \<longrightarrow>
      (\<exists>u'. updateObjects E dt (length (gameObjects u)) u = Some u' \<and>
            (\<forall>q. shouldDestroy (heap u q) \<longrightarrow> q \<notin> set (gameObjects u'))))"
  using handleCollision_frameStable [of s E a b] resolveAll_props [of s E ps]
    CollisionSystem_update_frameStable [of s E dt] updateObjects_total_prunes [of E dt u]
    marked_survives_tick [of e currentTime E t r]
  by blast

text \<open>
  In the first frame of the running game the bullet is not marked when the collision
  phase starts, is marked by it, and is registered and marked in the world that the tick
  leaves behind; the loop of the next \<open>update\<close> removes it.
\<close>

theorem C7_witness:
  "isRunning bulletEngine \<and> frameInterval bulletEngine \<le> 20 - lastTime bulletEngine \<and>
   isPaused bulletEngine = isPausePressed (sim bulletEngine) \<and>
   beforeCollision basePlatform (20 - lastTime bulletEngine) (sim bulletEngine) = Some afterLoop \<and>
   isInGame afterLoop \<and>
   frameStable (CollisionSystem_update basePlatform 20 afterLoop)
     (afterCollision basePlatform 20 (CollisionSystem_update basePlatform 20 afterLoop)) \<and>
   1 < nextRef afterLoop \<and> 1 \<in> set (gameObjects afterLoop) \<and>
   \<not> shouldDestroy (heap afterLoop 1) \<and>
   shouldDestroy (heap (CollisionSystem_update basePlatform 20 afterLoop) 1) \<and>
   gameLoop basePlatform 20 bulletEngine \<noteq> None \<and>
   sim (the (gameLoop basePlatform 20 bulletEngine)) = frame1 \<and>
   1 \<in> set (gameObjects frame1) \<and> shouldDestroy (heap frame1 1) \<and>
   registryAppendOnly basePlatform \<and>
   updateObjects basePlatform 20 (length (gameObjects frame1)) frame1 \<noteq> None \<and>
   1 \<notin> set (gameObjects (the (updateObjects basePlatform 20 (length (gameObjects frame1)) frame1)))"
proof -
  note T = C7_destroyed_entities [of afterLoop basePlatform 0 0 "[]" 20 bulletEngine 20 afterLoop "Suc 0" frame1]
  have d: "20 - lastTime bulletEngine = 20"
    by (simp add: bulletEngine_eval)
  have h: "isRunning bulletEngine" "frameInterval bulletEngine \<le> 20 - lastTime bulletEngine"
      "isPaused bulletEngine = isPausePressed (sim bulletEngine)"
      "beforeCollision basePlatform (20 - lastTime bulletEngine) (sim bulletEngine) = Some afterLoop"
      "isInGame afterLoop"
      "frameStable (CollisionSystem_update basePlatform 20 afterLoop)
         (afterCollision basePlatform 20 (CollisionSystem_update basePlatform 20 afterLoop))"
      "Suc 0 < nextRef afterLoop" "Suc 0 \<in> set (gameObjects afterLoop)"
      "shouldDestroy (heap (CollisionSystem_update basePlatform 20 afterLoop) (Suc 0))"
      "\<not> shouldDestroy (heap afterLoop (Suc 0))"
    by (simp_all add: bulletEngine_eval bulletScene_keys bulletScene_before isInGame_def
          afterLoop_eval afterCollision_base frameStable_InputManager_update afterLoop_collision
          newBullet_def newGameObject_def)
  from T h obtain e' where w: "gameLoop basePlatform 20 bulletEngine = Some e'"
      "update basePlatform (20 - lastTime bulletEngine) (sim bulletEngine) = Some (sim e')"
      "Suc 0 \<in> set (gameObjects (sim e'))" "shouldDestroy (heap (sim e') (Suc 0))"
    unfolding d by blast
  have w': "sim e' = frame1"
    using w(2) by (simp add: bulletEngine_eval update_eval)
  from T registryAppendOnly_base
  obtain u' where u: "updateObjects basePlatform 20 (length (gameObjects frame1)) frame1 = Some u'"
      "\<forall>q. shouldDestroy (heap frame1 q) \<longrightarrow> q \<notin> set (gameObjects u')"
    by blast
  show ?thesis
    using h w u registryAppendOnly_base by (simp add: w')
qed

text \<open>
  The claim as stated has the marked entity absent from the registry at the start of the
  next frame. The bullet is not marked before the first tick nor after the loop over the
  registry in it; the collision phase of that tick marks it, and in the world that the
  tick leaves behind, which is the world the next tick starts from, it is still
  registered.
\<close>

theorem C7_counterexample:
  "isRunning bulletEngine \<and> gameLoop basePlatform 20 bulletEngine \<noteq> None \<and>
   sim (the (gameLoop basePlatform 20 bulletEngine)) = frame1 \<and>
   \<not> shouldDestroy (heap (sim bulletEngine) 1) \<and> \<not> shouldDestroy (heap afterLoop 1) \<and>
   shouldDestroy (heap frame1 1) \<and> 1 \<in> set (gameObjects frame1)"
proof -
  from tick1 obtain e' where "gameLoop basePlatform 20 bulletEngine = Some e'" "sim e' = frame1"
    by blast
  then show ?thesis
    using frame1_facts
    by (simp add: bulletEngine_eval bulletScene_eval afterLoop_eval newBullet_def newGameObject_def)
qed

end
